theory Spec2Isabelle
  imports Main
begin

section \<open>Strings\<close>

text \<open>
  JavaScript strings are modelled as \<^typ>\<open>string\<close>; the model covers ASCII text, which is what
  every keyword, colour string and font name compared below consists of. The helpers follow
  the JavaScript operations of the same name on such text.
\<close>

definition startsWith :: "string \<Rightarrow> string \<Rightarrow> bool" where
  "startsWith s p = (take (length p) s = p)"

text \<open>\<^verbatim>\<open>s.includes(k)\<close>: \<open>k\<close> occurs in \<open>s\<close> as a contiguous substring.\<close>

fun str_includes :: "string \<Rightarrow> string \<Rightarrow> bool" where
  "str_includes [] k = (k = [])"
| "str_includes (c # cs) k = (startsWith (c # cs) k \<or> str_includes cs k)"

definition toLowerChar :: "char \<Rightarrow> char" where
  "toLowerChar c =
     (case map_of (zip ''ABCDEFGHIJKLMNOPQRSTUVWXYZ'' ''abcdefghijklmnopqrstuvwxyz'') c of
        Some l \<Rightarrow> l
      | None \<Rightarrow> c)"

definition toLowerCase :: "string \<Rightarrow> string" where
  "toLowerCase s = map toLowerChar s"

text \<open>\<^verbatim>\<open>s.split(",")\<close>: the pieces between separators; never the empty list.\<close>

fun str_split :: "char \<Rightarrow> string \<Rightarrow> string list" where
  "str_split sep [] = [[]]"
| "str_split sep (c # cs) =
     (if c = sep then [] # str_split sep cs
      else (case str_split sep cs of
              w # ws \<Rightarrow> (c # w) # ws
            | [] \<Rightarrow> [[c]]))"

definition isSpace :: "char \<Rightarrow> bool" where
  "isSpace c = (c \<in> set [CHR '' '', CHR 0x09, CHR 0x0A, CHR 0x0B, CHR 0x0C, CHR 0x0D])"

definition str_trim :: "string \<Rightarrow> string" where
  "str_trim s = rev (dropWhile isSpace (rev (dropWhile isSpace s)))"

text \<open>\<^verbatim>\<open>f.replace(/["']/g, "")\<close>: both kinds of quote are deleted.\<close>

definition strip_quotes :: "string \<Rightarrow> string" where
  "strip_quotes s = filter (\<lambda>c. c \<noteq> CHR 0x22 \<and> c \<noteq> CHR 0x27) s"

text \<open>\<^verbatim>\<open>s.padStart(n, c)\<close> for a one-character filler.\<close>

definition padStart :: "nat \<Rightarrow> char \<Rightarrow> string \<Rightarrow> string" where
  "padStart n c s = replicate (n - length s) c @ s"

definition isDigit :: "char \<Rightarrow> bool" where
  "isDigit c = (c \<in> set ''0123456789'')"

text \<open>
  \<^verbatim>\<open>s.match(/\d+/g)\<close>: the maximal runs of digits, left to right; \<^verbatim>\<open>null\<close> (here
  \<^const>\<open>None\<close>) when there is none. \<open>digit_runs cur s\<close> carries the run being read.
\<close>

fun digit_runs :: "string \<Rightarrow> string \<Rightarrow> string list" where
  "digit_runs cur [] = (if cur = [] then [] else [cur])"
| "digit_runs cur (c # cs) =
     (if isDigit c then digit_runs (cur @ [c]) cs
      else (if cur = [] then [] else [cur]) @ digit_runs [] cs)"

definition match_digits :: "string \<Rightarrow> string list option" where
  "match_digits s = (case digit_runs [] s of [] \<Rightarrow> None | m \<Rightarrow> Some m)"

text \<open>
  \<^verbatim>\<open>Number(x)\<close> on a run of digits is its decimal value (exact below \<open>2^53\<close>; colour
  components are far smaller), and \<^verbatim>\<open>n.toString(16)\<close> its lower-case hexadecimal numeral.
\<close>

definition Number :: "string \<Rightarrow> nat" where
  "Number ds = foldl (\<lambda>n c. 10 * n + (of_char c - 48)) 0 ds"

fun toString16 :: "nat \<Rightarrow> string" where
  "toString16 n =
     (if n < 16 then [''0123456789abcdef'' ! n]
      else toString16 (n div 16) @ [''0123456789abcdef'' ! (n mod 16)])"

declare toString16.simps [simp del]

text \<open>
  A JavaScript \<^verbatim>\<open>Set\<close> keeps its elements in insertion order and ignores an element it
  already holds; \<^verbatim>\<open>[...set]\<close> and \<^verbatim>\<open>Array.from(set)\<close> list them in that order.
\<close>

definition set_add :: "'a list \<Rightarrow> 'a \<Rightarrow> 'a list" where
  "set_add xs x = (if x \<in> set xs then xs else xs @ [x])"

section \<open>Thrown values\<close>

text \<open>
  A \<^verbatim>\<open>throw\<close> (or a rejected promise) is the left summand of a result:
  \<open>TypeError\<close> for a property read on \<^verbatim>\<open>null\<close> or \<^verbatim>\<open>undefined\<close>,
  \<open>AutomationError\<close> for a browser-automation call that rejects (timeout, closed target,
  failed launch).
\<close>

datatype error = TypeError | AutomationError

text \<open>\<^verbatim>\<open>xs.map(f)\<close> where \<open>f\<close> may throw: the first throw ends the map.\<close>

fun map_throw :: "('a \<Rightarrow> error + 'b) \<Rightarrow> 'a list \<Rightarrow> error + 'b list" where
  "map_throw f [] = Inr []"
| "map_throw f (x # xs) =
     (case f x of
        Inl e \<Rightarrow> Inl e
      | Inr y \<Rightarrow> (case map_throw f xs of Inl e \<Rightarrow> Inl e | Inr ys \<Rightarrow> Inr (y # ys)))"

section \<open>The rendered document\<close>

text \<open>
  What the in-page functions read: the computed style of every element
  (\<^verbatim>\<open>document.querySelectorAll("*")\<close> in document order), the title, the visible text of
  the body (\<^const>\<open>None\<close> when \<^verbatim>\<open>document.body\<close> is \<^verbatim>\<open>null\<close>), the
  \<^verbatim>\<open>content\<close> of each \<^verbatim>\<open>meta[name='keywords']\<close> and the text of each
  \<^verbatim>\<open>h1\<close>/\<^verbatim>\<open>h2\<close>.
\<close>

record element =
  color :: string
  backgroundColor :: string
  fontFamily :: string

record dom =
  title :: string
  body :: "string option"
  elements :: "element list"
  metaKeywords :: "string list"
  headings :: "string list"

section \<open>Colour extraction\<close>

text \<open>The arrow function mapped over the captured strings in index.js and part_001:
  every digit run, as hexadecimal padded to two digits, behind a \<open>#\<close>.\<close>

definition hex2 :: "nat \<Rightarrow> string" where
  "hex2 x = padStart 2 (CHR ''0'') (toString16 x)"

definition colorToHex :: "string \<Rightarrow> error + string" where
  "colorToHex rgb =
     (case match_digits rgb of
        None \<Rightarrow> Inl TypeError
      | Some m \<Rightarrow> Inr (CHR ''#'' # concat (map (\<lambda>x. hex2 (Number x)) m)))"

text \<open>index.js, \<^verbatim>\<open>extractColors\<close>: the function evaluated in the page.\<close>

definition collectColors :: "element list \<Rightarrow> string list" where
  "collectColors els =
     foldl (\<lambda>s el.
        let s1 = (if startsWith (color el) ''rgb'' then set_add s (color el) else s)
        in (if startsWith (backgroundColor el) ''rgb''
            then set_add s1 (backgroundColor el) else s1))
       [] els"

definition extractColors_page :: "dom \<Rightarrow> error + string list" where
  "extractColors_page d = map_throw colorToHex (take 25 (collectColors (elements d)))"

text \<open>part_001, the \<^verbatim>\<open>colors\<close> evaluation of its /analyze handler: every non-empty
  colour string enters the set, the filter comes afterwards.\<close>

definition collectColors_001 :: "element list \<Rightarrow> string list" where
  "collectColors_001 els =
     foldl (\<lambda>s el.
        let s1 = (if color el \<noteq> [] then set_add s (color el) else s)
        in (if backgroundColor el \<noteq> [] then set_add s1 (backgroundColor el) else s1))
       [] els"

definition colors_page_001 :: "dom \<Rightarrow> error + string list" where
  "colors_page_001 d =
     map_throw colorToHex
       (take 20 (filter (\<lambda>c. startsWith c ''rgb'') (collectColors_001 (elements d))))"

text \<open>part_000: \<^verbatim>\<open>rgbToHex\<close> keeps the first three runs only and answers
  \<^verbatim>\<open>null\<close> when there is none; with one or two runs the destructured \<open>g\<close> or \<open>b\<close> is
  \<^verbatim>\<open>undefined\<close> and \<^verbatim>\<open>toString\<close> throws.\<close>

definition rgbToHex :: "string \<Rightarrow> error + string option" where
  "rgbToHex rgb =
     (case match_digits rgb of
        None \<Rightarrow> Inr None
      | Some m \<Rightarrow>
          (case map Number m of
             r # g # b # _ \<Rightarrow> Inr (Some (CHR ''#'' # concat (map hex2 [r, g, b])))
           | _ \<Rightarrow> Inl TypeError))"

text \<open>part_000, \<^verbatim>\<open>extractCSSColors\<close>: the function evaluated in the page looks at the
  first 1200 elements and drops the fully transparent colour.\<close>

definition cssColors_page :: "dom \<Rightarrow> error + string list" where
  "cssColors_page d =
     Inr (foldl (\<lambda>colors el.
            foldl (\<lambda>cs c.
                if c \<noteq> [] \<and> c \<noteq> ''rgba(0, 0, 0, 0)'' \<and> startsWith c ''rgb''
                then set_add cs c else cs)
              colors [color el, backgroundColor el])
          [] (take 1200 (elements d)))"

text \<open>part_000, in the handler:
  \<^verbatim>\<open>rawColors.map(rgbToHex).filter(Boolean).slice(0, 30)\<close>.\<close>

definition hexColors_000 :: "string list \<Rightarrow> error + string list" where
  "hexColors_000 rawColors =
     (case map_throw rgbToHex rawColors of
        Inl e \<Rightarrow> Inl e
      | Inr hs \<Rightarrow> Inr (take 30 (concat (map (\<lambda>h. case h of None \<Rightarrow> [] | Some x \<Rightarrow> (if x = [] then [] else [x])) hs))))"

section \<open>Font extraction and classification\<close>

text \<open>part_000, \<^verbatim>\<open>extractFonts\<close>: the function evaluated in the page.\<close>

definition fonts_page_000 :: "dom \<Rightarrow> error + string list" where
  "fonts_page_000 d =
     Inr (take 10
       (foldl (\<lambda>fonts el.
            if fontFamily el \<noteq> []
            then foldl (\<lambda>fs f. set_add fs (str_trim (strip_quotes f)))
                   fonts (str_split (CHR '','') (fontFamily el))
            else fonts)
          [] (take 1200 (elements d))))"

text \<open>index.js, \<^verbatim>\<open>extractFonts\<close>: names are lower-cased and the generic ones left out.\<close>

definition fonts_page :: "dom \<Rightarrow> error + string list" where
  "fonts_page d =
     Inr (take 10
       (foldl (\<lambda>fonts el.
            if fontFamily el = [] then fonts
            else foldl (\<lambda>fs font.
                     let clean = toLowerCase (str_trim (strip_quotes font))
                     in if clean \<noteq> [] \<and>
                           clean \<notin> set [''inherit'', ''initial'', ''unset'', ''sans-serif'', ''serif'']
                        then set_add fs clean else fs)
                   fonts (str_split (CHR '','') (fontFamily el)))
          [] (elements d)))"

text \<open>part_000, \<^verbatim>\<open>classifyFontTypes\<close>: \<open>fontType\<close> is the body of its
  \<^verbatim>\<open>forEach\<close>, the type one font name adds to the set.\<close>

definition fontType :: "string \<Rightarrow> string" where
  "fontType f =
     (let name = toLowerCase f
      in if str_includes name ''mono'' then ''monospace''
         else if str_includes name ''serif'' \<and> \<not> str_includes name ''sans'' then ''serif''
         else ''sans-serif'')"

definition classifyFontTypes :: "string list \<Rightarrow> string list" where
  "classifyFontTypes fonts = foldl (\<lambda>types f. set_add types (fontType f)) [] fonts"

section \<open>Tag extraction\<close>

text \<open>part_000, \<^verbatim>\<open>extractTags\<close>: the function evaluated in the page.\<close>

definition tags_page_000 :: "dom \<Rightarrow> error + string list" where
  "tags_page_000 d =
     (let tags1 = foldl (\<lambda>tags m. foldl (\<lambda>ts t. set_add ts (str_trim t)) tags
                                      (str_split (CHR '','') m))
                    [] (metaKeywords d);
          tags2 = foldl (\<lambda>tags h. if length h < 60 then set_add tags (toLowerCase h) else tags)
                    tags1 (headings d)
      in Inr (take 12 tags2))"

section \<open>Category classification\<close>

text \<open>The text every classifier scores: title, a blank and a prefix of the body's visible
  text, lower-cased. Reading \<^verbatim>\<open>innerText\<close> of a \<^verbatim>\<open>null\<close> body throws.\<close>

definition page_text :: "nat \<Rightarrow> dom \<Rightarrow> error + string" where
  "page_text n d =
     (case body d of
        None \<Rightarrow> Inl TypeError
      | Some b \<Rightarrow> Inr (toLowerCase (title d @ '' '' @ take n b)))"

text \<open>The inner loop: one point for each keyword of the rule that the text includes.\<close>

definition keyword_score :: "string \<Rightarrow> string list \<Rightarrow> nat" where
  "keyword_score text ks = foldl (\<lambda>score k. if str_includes text k then score + 1 else score) 0 ks"

text \<open>The outer loop of \<^verbatim>\<open>extractCategory\<close> (part_000 and part_001), carrying
  \<^verbatim>\<open>bestCategory\<close> and \<^verbatim>\<open>highestScore\<close>; a rule replaces the best one only
  with a strictly higher score.\<close>

fun category_loop :: "string \<Rightarrow> (string \<times> string list) list \<Rightarrow> string \<times> nat \<Rightarrow> string \<times> nat" where
  "category_loop text [] (bestCategory, highestScore) = (bestCategory, highestScore)"
| "category_loop text ((label, keywords) # rules) (bestCategory, highestScore) =
     (let score = keyword_score text keywords
      in if score > highestScore then category_loop text rules (label, score)
         else category_loop text rules (bestCategory, highestScore))"

definition bestCategory :: "(string \<times> string list) list \<Rightarrow> string \<Rightarrow> string" where
  "bestCategory rules text = fst (category_loop text rules (''General Website'', 0))"

definition rules_000 :: "(string \<times> string list) list" where
  "rules_000 =
    [(''E-commerce'',
        [''shop'', ''store'', ''cart'', ''checkout'', ''buy'', ''order'', ''product'', ''sale'']),
     (''Marketplace'', [''marketplace'', ''vendors'', ''sellers'', ''listings'']),
     (''Technology / SaaS'',
        [''software'', ''saas'', ''platform'', ''cloud'', ''api'', ''dashboard'', ''integration'']),
     (''AI / Data / ML'',
        [''artificial intelligence'', ''machine learning'', ''ai'', ''llm'', ''chatbot'',
         ''analytics'']),
     (''Education'',
        [''education'', ''course'', ''learn'', ''training'', ''tutorial'', ''academy'',
         ''certification'']),
     (''Finance'', [''bank'', ''banking'', ''investment'', ''loan'', ''insurance'', ''finance'']),
     (''Healthcare'', [''health'', ''medical'', ''clinic'', ''hospital'', ''doctor'', ''patient'']),
     (''News / Media'', [''news'', ''media'', ''journal'', ''headline'', ''breaking news'']),
     (''Blog / Content'', [''blog'', ''article'', ''post'', ''read more'', ''author'', ''comments'']),
     (''Portfolio / Personal'',
        [''portfolio'', ''my work'', ''projects'', ''case study'', ''developer'', ''designer'']),
     (''Corporate Website'',
        [''about us'', ''our company'', ''leadership'', ''investors'', ''careers'', ''mission'']),
     (''Real Estate'', [''real estate'', ''property'', ''rent'', ''buy home'']),
     (''Travel / Hospitality'', [''travel'', ''hotel'', ''booking'', ''reservation'', ''vacation'']),
     (''Government / Public Service'',
        [''government'', ''ministry'', ''public service'', ''policy'']),
     (''Non-Profit / NGO'', [''ngo'', ''charity'', ''donation'', ''volunteer'', ''foundation''])]"

definition rules_001 :: "(string \<times> string list) list" where
  "rules_001 =
    [(''AI / Data / ML'', [''ai'', ''machine learning'', ''chatbot'', ''llm'', ''analytics'']),
     (''Social Media'', [''social'', ''community'', ''followers'', ''share'']),
     (''E-commerce'', [''shop'', ''store'', ''cart'', ''checkout'', ''buy'']),
     (''Education'', [''course'', ''learn'', ''academy'', ''training'']),
     (''Finance'', [''bank'', ''finance'', ''investment'', ''crypto'']),
     (''Healthcare'', [''health'', ''medical'', ''clinic'']),
     (''SaaS / Technology'', [''software'', ''platform'', ''api'', ''dashboard'']),
     (''News / Media'', [''news'', ''media'', ''headline'']),
     (''Portfolio'', [''portfolio'', ''projects'', ''case study''])]"

text \<open>part_000, \<^verbatim>\<open>extractCategory\<close>: the function evaluated in the page.\<close>

definition category_page_000 :: "dom \<Rightarrow> error + string" where
  "category_page_000 d =
     (case page_text 3000 d of
        Inl e \<Rightarrow> Inl e
      | Inr text \<Rightarrow> Inr (bestCategory rules_000 text))"

text \<open>part_001 counts with \<^verbatim>\<open>keywords.filter(...).length\<close>; the loop around it is the
  same.\<close>

fun category_loop_001 :: "string \<Rightarrow> (string \<times> string list) list \<Rightarrow> string \<times> nat \<Rightarrow> string \<times> nat" where
  "category_loop_001 text [] (best, score) = (best, score)"
| "category_loop_001 text ((label, keywords) # rules) (best, score) =
     (let hits = length (filter (\<lambda>k. str_includes text k) keywords)
      in if hits > score then category_loop_001 text rules (label, hits)
         else category_loop_001 text rules (best, score))"

definition category_page_001 :: "dom \<Rightarrow> error + string" where
  "category_page_001 d =
     (case page_text 3000 d of
        Inl e \<Rightarrow> Inl e
      | Inr text \<Rightarrow> Inr (fst (category_loop_001 text rules_001 (''General Website'', 0))))"

subsection \<open>index.js: the ranked variant\<close>

text \<open>An entry of \<^verbatim>\<open>CATEGORY_RULES\<close>; its \<^verbatim>\<open>keywords\<close> field is \<open>rule_keywords\<close>
  here.\<close>

record category_rule =
  label :: string
  tags :: "string list"
  rule_keywords :: "string list"

definition CATEGORY_RULES :: "category_rule list" where
  "CATEGORY_RULES =
    [\<lparr>label = ''Technology'',
      tags = [''tech'', ''software'', ''platform'', ''api'', ''developer''],
      rule_keywords = [''software'', ''api'', ''cloud'', ''developer'', ''code'']\<rparr>,
     \<lparr>label = ''AI / Machine Learning'',
      tags = [''ai'', ''ml'', ''chatbot'', ''automation''],
      rule_keywords = [''ai'', ''machine learning'', ''llm'', ''chatbot'', ''automation'']\<rparr>,
     \<lparr>label = ''Education'',
      tags = [''education'', ''learning'', ''courses'', ''training''],
      rule_keywords = [''course'', ''learn'', ''academy'', ''training'', ''education'']\<rparr>,
     \<lparr>label = ''E-commerce'',
      tags = [''shopping'', ''store'', ''products''],
      rule_keywords = [''shop'', ''cart'', ''checkout'', ''buy'', ''product'']\<rparr>,
     \<lparr>label = ''Social Media'',
      tags = [''social-media'', ''community'', ''network''],
      rule_keywords = [''social'', ''community'', ''followers'', ''share'']\<rparr>,
     \<lparr>label = ''Entertainment'',
      tags = [''fun'', ''movies'', ''music'', ''videos''],
      rule_keywords = [''movie'', ''music'', ''video'', ''entertainment'', ''stream'']\<rparr>,
     \<lparr>label = ''Finance'',
      tags = [''finance'', ''banking'', ''investment''],
      rule_keywords = [''bank'', ''finance'', ''investment'', ''crypto'']\<rparr>,
     \<lparr>label = ''Healthcare'',
      tags = [''health'', ''medical'', ''fitness''],
      rule_keywords = [''health'', ''clinic'', ''medical'', ''doctor'']\<rparr>]"

record intelligence =
  websiteType :: string
  categories :: "string list"
  websiteTags :: "string list"
  relatedPhrases :: "string list"

text \<open>The \<^verbatim>\<open>for\<close> loop over the rules: a rule with a positive score appends its label
  and score to \<^verbatim>\<open>categoryScores\<close> and adds its tags to the set.\<close>

definition scoreRules :: "category_rule list \<Rightarrow> string \<Rightarrow> (string \<times> nat) list \<times> string list" where
  "scoreRules rules text =
     foldl (\<lambda>(categoryScores, wtags) rule.
        let score = keyword_score text (rule_keywords rule)
        in if score > 0
           then (categoryScores @ [(label rule, score)], foldl set_add wtags (tags rule))
           else (categoryScores, wtags))
       ([], []) rules"

text \<open>
  \<^verbatim>\<open>categoryScores.sort((a, b) => b.score - a.score)\<close>: \<^verbatim>\<open>Array.prototype.sort\<close> is a
  stable sort, and the comparator orders by falling score. \<^const>\<open>sort_key\<close> is the stable
  insertion sort; the key is the negated score.
\<close>

definition sortByScore :: "(string \<times> nat) list \<Rightarrow> (string \<times> nat) list" where
  "sortByScore cs = sort_key (\<lambda>c. - int (snd c)) cs"

definition intelligenceOf :: "category_rule list \<Rightarrow> string \<Rightarrow> intelligence" where
  "intelligenceOf rules text =
     (let (categoryScores, wtags) = scoreRules rules text;
          cats = map fst (take 6 (sortByScore categoryScores));
          wtype = (case cats of
                     [] \<Rightarrow> ''General Website''
                   | c # _ \<Rightarrow> (if c = [] then ''General Website'' else c))
      in \<lparr>websiteType = wtype,
          categories = cats,
          websiteTags = wtags,
          relatedPhrases =
            map (\<lambda>c. ''websites similar to '' @ toLowerCase c @ '' platforms'') cats\<rparr>)"

text \<open>index.js, \<^verbatim>\<open>extractWebsiteIntelligence\<close>: the function evaluated in the page.\<close>

definition intelligence_page :: "dom \<Rightarrow> error + intelligence" where
  "intelligence_page d =
     (case page_text 6000 d of
        Inl e \<Rightarrow> Inl e
      | Inr text \<Rightarrow> Inr (intelligenceOf CATEGORY_RULES text))"

section \<open>JSON values\<close>

text \<open>
  Request bodies and responses are JSON. A number is modelled by an integer, which is all
  that truthiness and the counts below need. A property that is absent reads as
  \<^verbatim>\<open>undefined\<close>, here \<^const>\<open>None\<close>.
\<close>

datatype json =
    JNull
  | JBool bool
  | JNum int
  | JStr string
  | JArr "json list"
  | JObj "(string \<times> json) list"

text \<open>\<^verbatim>\<open>v.k\<close> on a parsed JSON value.\<close>

definition get :: "json \<Rightarrow> string \<Rightarrow> json option" where
  "get v k = (case v of JObj kvs \<Rightarrow> map_of kvs k | _ \<Rightarrow> None)"

text \<open>JavaScript truthiness, as \<^verbatim>\<open>!v\<close> and \<^verbatim>\<open>filter(r => r.success)\<close> test it.\<close>

fun truthy :: "json option \<Rightarrow> bool" where
  "truthy None = False"
| "truthy (Some JNull) = False"
| "truthy (Some (JBool b)) = b"
| "truthy (Some (JNum n)) = (n \<noteq> 0)"
| "truthy (Some (JStr s)) = (s \<noteq> [])"
| "truthy (Some (JArr xs)) = True"
| "truthy (Some (JObj kvs)) = True"

section \<open>The environment and the state of a request\<close>

text \<open>
  What the code does not decide is a parameter. \<open>URL_parses\<close> says whether the
  runtime's \<^verbatim>\<open>new URL(value)\<close> returns rather than throws, for a value of the body. \<open>rejects n\<close> says whether the
  \<open>n\<close>-th browser-automation call made since the server started rejects (launch failure,
  navigation timeout, closed target, failed capture), so that every \<^verbatim>\<open>await\<close> on the
  browser is a possible exit. \<open>site n url\<close> is the document the page shows when that call, a
  navigation to \<open>url\<close>, has resolved. \<open>randomUUID\<close> lists the identifiers drawn,
  \<open>stringify\<close> is \<^verbatim>\<open>JSON.stringify(data, null, 2)\<close>.
\<close>

record env =
  URL_parses :: "json \<Rightarrow> bool"
  rejects :: "nat \<Rightarrow> bool"
  site :: "nat \<Rightarrow> json option \<Rightarrow> dom"
  randomUUID :: "nat \<Rightarrow> string"
  stringify :: "json \<Rightarrow> string"

text \<open>
  The state a handler changes: the count of automation calls and of identifiers drawn, the
  number of browsers launched so far (the next browser's handle), the handles of the
  browsers that are running, the directories and screenshot files created, and the contents
  of \<^verbatim>\<open>submissions.json\<close>. File-system calls are taken to succeed, and so is
  \<^verbatim>\<open>browser.close()\<close>.
\<close>

record state =
  calls :: nat
  uuids :: nat
  launched :: nat
  running :: "nat set"
  dirs :: "string set"
  files :: "string list"
  submissions :: string

type_synonym 'a io = "state \<Rightarrow> (error + 'a) \<times> state"

definition unit :: "'a \<Rightarrow> 'a io" where
  "unit x s = (Inr x, s)"

text \<open>Sequencing of awaited steps: a throw skips the rest.\<close>

definition bind :: "'a io \<Rightarrow> ('a \<Rightarrow> 'b io) \<Rightarrow> 'b io" where
  "bind m f s = (case m s of (Inl e, s') \<Rightarrow> (Inl e, s') | (Inr x, s') \<Rightarrow> f x s')"

text \<open>A synchronous computation that may throw, run inside the sequence.\<close>

definition lift :: "error + 'a \<Rightarrow> 'a io" where
  "lift r s = (r, s)"

text \<open>\<^verbatim>\<open>try { await m } catch {}\<close>.\<close>

definition attempt :: "'a io \<Rightarrow> unit io" where
  "attempt m s = (case m s of (Inl e, s') \<Rightarrow> (Inr (), s') | (Inr x, s') \<Rightarrow> (Inr (), s'))"

text \<open>One browser-automation call whose result is not used.\<close>

definition call :: "env \<Rightarrow> unit io" where
  "call env s =
     (if rejects env (calls s) then Inl AutomationError else Inr (),
      s\<lparr>calls := Suc (calls s)\<rparr>)"

abbreviation newPage :: "env \<Rightarrow> unit io" where
  "newPage env \<equiv> call env"

abbreviation setViewport :: "env \<Rightarrow> unit io" where
  "setViewport env \<equiv> call env"

abbreviation page_close :: "env \<Rightarrow> unit io" where
  "page_close env \<equiv> call env"

text \<open>\<^verbatim>\<open>puppeteer.launch(...)\<close>: the new browser's handle, and the browser is running.\<close>

definition launch :: "env \<Rightarrow> nat io" where
  "launch env s =
     (case call env s of
        (Inl e, s') \<Rightarrow> (Inl e, s')
      | (Inr _, s') \<Rightarrow>
          (Inr (launched s'),
           s'\<lparr>launched := Suc (launched s'), running := insert (launched s') (running s')\<rparr>))"

definition browser_close :: "nat \<Rightarrow> state \<Rightarrow> state" where
  "browser_close b s = s\<lparr>running := running s - {b}\<rparr>"

text \<open>\<^verbatim>\<open>page.goto(url, ...)\<close>: the page then shows the site's document.\<close>

definition goto :: "env \<Rightarrow> json option \<Rightarrow> dom io" where
  "goto env url s =
     (case call env s of
        (Inl e, s') \<Rightarrow> (Inl e, s')
      | (Inr _, s') \<Rightarrow> (Inr (site env (calls s) url), s'))"

text \<open>\<^verbatim>\<open>page.evaluate(f)\<close>: the call may reject, and so may \<open>f\<close> in the page.\<close>

definition evaluate :: "env \<Rightarrow> (dom \<Rightarrow> error + 'a) \<Rightarrow> dom \<Rightarrow> 'a io" where
  "evaluate env f d = bind (call env) (\<lambda>_. lift (f d))"

definition page_title :: "env \<Rightarrow> dom \<Rightarrow> string io" where
  "page_title env d = bind (call env) (\<lambda>_. unit (title d))"

text \<open>\<^verbatim>\<open>page.screenshot({ path, ... })\<close>: the file exists once the call has resolved.\<close>

definition screenshot :: "env \<Rightarrow> string \<Rightarrow> unit io" where
  "screenshot env path s =
     (case call env s of
        (Inl e, s') \<Rightarrow> (Inl e, s')
      | (Inr _, s') \<Rightarrow> (Inr (), s'\<lparr>files := files s' @ [path]\<rparr>))"

definition crypto_randomUUID :: "env \<Rightarrow> state \<Rightarrow> string \<times> state" where
  "crypto_randomUUID env s = (randomUUID env (uuids s), s\<lparr>uuids := Suc (uuids s)\<rparr>)"

definition ensureDir :: "string \<Rightarrow> state \<Rightarrow> state" where
  "ensureDir dir s = (if dir \<in> dirs s then s else s\<lparr>dirs := insert dir (dirs s)\<rparr>)"

text \<open>\<^verbatim>\<open>new URL(value)\<close> with no base. The constructor reads \<^verbatim>\<open>undefined\<close> as the
  string \<open>undefined\<close>, which has no scheme, and throws; for the values a body can hold the
  environment answers.\<close>

definition new_URL :: "env \<Rightarrow> json option \<Rightarrow> error + unit" where
  "new_URL env v =
     (case v of
        None \<Rightarrow> Inl TypeError
      | Some x \<Rightarrow> (if URL_parses env x then Inr () else Inl TypeError))"

text \<open>\<^verbatim>\<open>isValidUrl\<close> (the same in the three files): true when the constructor returns,
  false when it throws.\<close>

definition isValidUrl :: "env \<Rightarrow> json option \<Rightarrow> bool" where
  "isValidUrl env v = (case new_URL env v of Inr _ \<Rightarrow> True | Inl _ \<Rightarrow> False)"

record response =
  status :: nat
  payload :: json

section \<open>The extractors\<close>

text \<open>index.js: each extractor returns what \<^verbatim>\<open>page.evaluate\<close> returns; nothing is
  caught.\<close>

definition extractWebsiteIntelligence :: "env \<Rightarrow> dom \<Rightarrow> intelligence io" where
  "extractWebsiteIntelligence env d = evaluate env intelligence_page d"

definition extractFonts :: "env \<Rightarrow> dom \<Rightarrow> string list io" where
  "extractFonts env d = evaluate env fonts_page d"

definition extractColors :: "env \<Rightarrow> dom \<Rightarrow> string list io" where
  "extractColors env d = evaluate env extractColors_page d"

text \<open>part_000: each extractor wraps the evaluation in \<^verbatim>\<open>try\<close> and returns its default
  from the \<^verbatim>\<open>catch\<close>.\<close>

definition try_default :: "'a io \<Rightarrow> 'a \<Rightarrow> 'a io" where
  "try_default m dflt s = (case m s of (Inl e, s') \<Rightarrow> (Inr dflt, s') | (Inr v, s') \<Rightarrow> (Inr v, s'))"

definition extractCSSColors :: "env \<Rightarrow> dom \<Rightarrow> string list io" where
  "extractCSSColors env d = try_default (evaluate env cssColors_page d) []"

definition extractFonts_000 :: "env \<Rightarrow> dom \<Rightarrow> string list io" where
  "extractFonts_000 env d = try_default (evaluate env fonts_page_000 d) []"

definition extractTags :: "env \<Rightarrow> dom \<Rightarrow> string list io" where
  "extractTags env d = try_default (evaluate env tags_page_000 d) []"

definition extractCategory :: "env \<Rightarrow> dom \<Rightarrow> string io" where
  "extractCategory env d = try_default (evaluate env category_page_000 d) ''Unknown''"

section \<open>index.js: the handlers\<close>

text \<open>A field whose value is \<^verbatim>\<open>undefined\<close> is left out of a JSON response.\<close>

definition opt_field :: "string \<Rightarrow> json option \<Rightarrow> (string \<times> json) list" where
  "opt_field k v = (case v of None \<Rightarrow> [] | Some x \<Rightarrow> [(k, x)])"

definition strings :: "string list \<Rightarrow> json" where
  "strings xs = JArr (map JStr xs)"

text \<open>\<^verbatim>\<open>analyzeSingleWebsite(browser, url)\<close>: first the awaited steps, from
  \<^verbatim>\<open>browser.newPage()\<close> to the returned object, for given file names; the
  three-second sleep changes nothing here.\<close>

definition analyze_steps :: "env \<Rightarrow> nat \<Rightarrow> json option \<Rightarrow> string \<Rightarrow> string \<Rightarrow> json io" where
  "analyze_steps env browser url desktopFile mobileFile =
     bind (newPage env) (\<lambda>_.
     bind (setViewport env) (\<lambda>_.
     bind (goto env url) (\<lambda>page.
     bind (page_title env page) (\<lambda>websiteName.
     bind (extractWebsiteIntelligence env page) (\<lambda>intelligence.
     bind (extractColors env page) (\<lambda>colors.
     bind (extractFonts env page) (\<lambda>fonts.
     bind (screenshot env (''screenshots/'' @ desktopFile)) (\<lambda>_.
     bind (setViewport env) (\<lambda>_.
     bind (screenshot env (''screenshots/'' @ mobileFile)) (\<lambda>_.
     bind (page_close env) (\<lambda>_.
     unit (JObj (opt_field ''url'' url @
       [(''websiteName'', JStr websiteName),
        (''websiteType'', JStr (websiteType intelligence)),
        (''categories'', strings (categories intelligence)),
        (''tags'', strings (websiteTags intelligence)),
        (''relatedPhrases'', strings (relatedPhrases intelligence)),
        (''colors'', strings colors),
        (''fonts'', strings fonts),
        (''desktopScreenshot'', JStr desktopFile),
        (''mobileScreenshot'', JStr mobileFile)])))))))))))))"

text \<open>The function itself draws the identifier and names the two files before those
  steps.\<close>

definition analyzeSingleWebsite :: "env \<Rightarrow> nat \<Rightarrow> json option \<Rightarrow> json io" where
  "analyzeSingleWebsite env browser url s0 =
     (let (id, s) = crypto_randomUUID env s0;
          desktopFile = ''desktop-'' @ id @ ''.webp'';
          mobileFile = ''mobile-'' @ id @ ''.webp''
      in analyze_steps env browser url desktopFile mobileFile s)"

definition message :: "nat \<Rightarrow> string \<Rightarrow> response" where
  "message code text = \<lparr>status = code, payload = JObj [(''message'', JStr text)]\<rparr>"

text \<open>\<^verbatim>\<open>POST /analyze\<close>. The \<^verbatim>\<open>finally\<close> block closes the browser when the variable
  holds one, that is when the launch returned.\<close>

definition analyze :: "env \<Rightarrow> json \<Rightarrow> state \<Rightarrow> response \<times> state" where
  "analyze env reqbody s =
     (let url = get reqbody ''url''
      in if \<not> isValidUrl env url then (message 400 ''Invalid URL'', s)
         else
           (let s1 = ensureDir ''screenshots'' s
            in case launch env s1 of
                 (Inl e, s2) \<Rightarrow> (message 500 ''Website analysis failed'', s2)
               | (Inr browser, s2) \<Rightarrow>
                   (case analyzeSingleWebsite env browser url s2 of
                      (Inr data, s3) \<Rightarrow>
                        (\<lparr>status = 200, payload = data\<rparr>, browser_close browser s3)
                    | (Inl e, s3) \<Rightarrow>
                        (message 500 ''Website analysis failed'', browser_close browser s3))))"

text \<open>The loop of \<^verbatim>\<open>POST /analyze/bulk\<close>: one entry is pushed for each URL.\<close>

fun bulk_loop :: "env \<Rightarrow> nat \<Rightarrow> json list \<Rightarrow> json list \<Rightarrow> state \<Rightarrow> json list \<times> state" where
  "bulk_loop env browser [] results s = (results, s)"
| "bulk_loop env browser (url # urls) results s =
     (if \<not> isValidUrl env (Some url)
      then bulk_loop env browser urls
             (results @ [JObj [(''url'', url), (''success'', JBool False),
                               (''error'', JStr ''Invalid URL'')]]) s
      else (case analyzeSingleWebsite env browser (Some url) s of
              (Inr data, s') \<Rightarrow>
                bulk_loop env browser urls
                  (results @ [JObj [(''success'', JBool True), (''data'', data)]]) s'
            | (Inl e, s') \<Rightarrow>
                bulk_loop env browser urls
                  (results @ [JObj [(''url'', url), (''success'', JBool False),
                                    (''error'', JStr ''Analysis failed'')]]) s'))"

definition bulk_summary :: "json list \<Rightarrow> json list \<Rightarrow> json" where
  "bulk_summary urls results =
     JObj [(''total'', JNum (int (length urls))),
           (''success'', JNum (int (length (filter (\<lambda>r. truthy (get r ''success'')) results)))),
           (''failed'', JNum (int (length (filter (\<lambda>r. \<not> truthy (get r ''success'')) results)))),
           (''results'', JArr results)]"

definition analyze_bulk :: "env \<Rightarrow> json \<Rightarrow> state \<Rightarrow> response \<times> state" where
  "analyze_bulk env reqbody s =
     (case get reqbody ''urls'' of
        Some (JArr urls) \<Rightarrow>
          if urls = [] then (message 400 ''URLs array required'', s)
          else
            (let s1 = ensureDir ''screenshots'' s
             in case launch env s1 of
                  (Inl e, s2) \<Rightarrow> (message 500 ''Bulk analysis failed'', s2)
                | (Inr browser, s2) \<Rightarrow>
                    (let (results, s3) = bulk_loop env browser urls [] s2
                     in (\<lparr>status = 200, payload = bulk_summary urls results\<rparr>,
                         browser_close browser s3)))
      | _ \<Rightarrow> (message 400 ''URLs array required'', s))"

text \<open>\<^verbatim>\<open>POST /submit\<close> (index.js and part_001 have the same handler).\<close>

definition submit :: "env \<Rightarrow> json \<Rightarrow> state \<Rightarrow> response \<times> state" where
  "submit env data s =
     (if \<not> truthy (get data ''url'') \<or> \<not> truthy (get data ''websiteName'')
      then (message 400 ''Invalid submission'', s)
      else (message 200 ''Website submitted successfully'',
            s\<lparr>submissions := submissions s @ stringify env data @ [CHR '','', CHR 0x0A]\<rparr>))"

section \<open>part_000: the /analyze handler\<close>

definition hardenPage :: "env \<Rightarrow> unit io" where
  "hardenPage env = call env"

text \<open>\<^verbatim>\<open>stabilizePage\<close>: the wait for network idle may time out, which is ignored; then
  a sleep.\<close>

definition stabilizePage :: "env \<Rightarrow> unit io" where
  "stabilizePage env = attempt (call env)"

definition aggressiveScroll :: "env \<Rightarrow> unit io" where
  "aggressiveScroll env = attempt (call env)"

definition forceLoadImages :: "env \<Rightarrow> unit io" where
  "forceLoadImages env = attempt (call env)"

text \<open>\<^verbatim>\<open>try { await page.screenshot(...) } catch { warnings.push(w) }\<close>.\<close>

definition capture :: "env \<Rightarrow> string \<Rightarrow> string list \<Rightarrow> string \<Rightarrow> string list io" where
  "capture env path warnings w s =
     (case screenshot env path s of
        (Inl e, s') \<Rightarrow> (Inr (warnings @ [w]), s')
      | (Inr _, s') \<Rightarrow> (Inr warnings, s'))"

text \<open>The body of the handler's \<^verbatim>\<open>try\<close> after the launch, up to the response it
  sends. Screenshot paths are written relative to the working directory.\<close>

definition analyze_steps_000 :: "env \<Rightarrow> nat \<Rightarrow> json option \<Rightarrow> string \<Rightarrow> string \<Rightarrow> json io" where
  "analyze_steps_000 env browser url desktopFile mobileFile =
     bind (newPage env) (\<lambda>_.
     bind (hardenPage env) (\<lambda>_.
     bind (setViewport env) (\<lambda>_.
     bind (goto env url) (\<lambda>desktop.
     bind (stabilizePage env) (\<lambda>_.
     bind (forceLoadImages env) (\<lambda>_.
     bind (aggressiveScroll env) (\<lambda>_.
     bind (capture env (''screenshots/'' @ desktopFile) []
             ''Desktop screenshot was partially captured.'') (\<lambda>warnings1.
     bind (extractCategory env desktop) (\<lambda>category.
     bind (extractCSSColors env desktop) (\<lambda>rawColors.
     bind (lift (hexColors_000 rawColors)) (\<lambda>colors.
     bind (extractFonts_000 env desktop) (\<lambda>fonts.
     bind (extractTags env desktop) (\<lambda>tags.
     bind (page_close env) (\<lambda>_.
     bind (newPage env) (\<lambda>_.
     bind (hardenPage env) (\<lambda>_.
     bind (setViewport env) (\<lambda>_.
     bind (goto env url) (\<lambda>mobile.
     bind (stabilizePage env) (\<lambda>_.
     bind (capture env (''screenshots/'' @ mobileFile) warnings1
             ''Mobile screenshot could not be fully generated.'') (\<lambda>warnings.
     bind (page_close env) (\<lambda>_.
     unit (JObj
       [(''status'', JStr (if warnings \<noteq> [] then ''partial_success'' else ''success'')),
        (''message'', JStr (if warnings \<noteq> []
           then ''Some data could not be fully extracted, but screenshots were captured.''
           else ''Website analyzed successfully.'')),
        (''category'', JStr category),
        (''colors'', strings colors),
        (''fonts'', strings fonts),
        (''fontTypes'', strings (classifyFontTypes fonts)),
        (''tags'', strings tags),
        (''desktop'', JStr desktopFile),
        (''mobile'', JStr mobileFile),
        (''warnings'', strings warnings)]))))))))))))))))))))))"

definition error_000 :: "nat \<Rightarrow> string \<Rightarrow> response" where
  "error_000 code text =
     \<lparr>status = code, payload = JObj [(''status'', JStr ''error''), (''message'', JStr text)]\<rparr>"

definition analyze_000 :: "env \<Rightarrow> json \<Rightarrow> state \<Rightarrow> response \<times> state" where
  "analyze_000 env reqbody s =
     (let url = get reqbody ''url''
      in if \<not> truthy url \<or> \<not> isValidUrl env url
         then (error_000 400 ''Please enter a valid website URL.'', s)
         else
           (let s1 = ensureDir ''screenshots'' s;
                (id, s2) = crypto_randomUUID env s1;
                desktopFile = ''desktop-'' @ id @ ''.webp'';
                mobileFile = ''mobile-'' @ id @ ''.webp''
            in case launch env s2 of
                 (Inl e, s3) \<Rightarrow>
                   (error_000 500
                      ''The website restricted automation or took too long to respond.'', s3)
               | (Inr browser, s3) \<Rightarrow>
                   (case analyze_steps_000 env browser url desktopFile mobileFile s3 of
                      (Inr result, s4) \<Rightarrow>
                        (\<lparr>status = 200, payload = result\<rparr>, browser_close browser s4)
                    | (Inl e, s4) \<Rightarrow>
                        (error_000 500
                           ''The website restricted automation or took too long to respond.'',
                         browser_close browser s4))))"

section \<open>Predicates of the specification, and sample inputs\<close>

text \<open>
  The label the specification asks for when some rule scores: the label of a rule with a
  positive score that every earlier rule stays strictly below and no later rule exceeds, that
  is the first rule of the table that reaches the highest score.
\<close>

definition first_highest :: "('r \<Rightarrow> nat) \<Rightarrow> ('r \<Rightarrow> string) \<Rightarrow> 'r list \<Rightarrow> string \<Rightarrow> bool" where
  "first_highest sc lab rules best =
     (\<exists>pre r post. rules = pre @ r # post \<and> best = lab r \<and> 0 < sc r \<and>
        (\<forall>p \<in> set pre. sc p < sc r) \<and> (\<forall>q \<in> set post. sc q \<le> sc r))"

text \<open>The invariant of the loop: from a best score \<open>h\<close>, the loop ends on the rule that
  first exceeds \<open>h\<close> and everything before it, and that no later rule exceeds.\<close>

definition overtakes :: "('r \<Rightarrow> nat) \<Rightarrow> ('r \<Rightarrow> string) \<Rightarrow> 'r list \<Rightarrow> nat \<Rightarrow> string \<Rightarrow> nat \<Rightarrow> bool" where
  "overtakes sc lab rules h b' h' =
     (\<exists>pre r post. rules = pre @ r # post \<and> b' = lab r \<and> h' = sc r \<and> h < sc r \<and>
        (\<forall>p \<in> set pre. sc p < sc r) \<and> (\<forall>q \<in> set post. sc q \<le> sc r))"

text \<open>A computation that neither launches nor closes a browser, and a property of every
  value a computation returns.\<close>

definition frame :: "'a io \<Rightarrow> bool" where
  "frame m = (\<forall>s r s'. m s = (r, s') \<longrightarrow> launched s' = launched s \<and> running s' = running s)"

definition yields :: "'a io \<Rightarrow> ('a \<Rightarrow> bool) \<Rightarrow> bool" where
  "yields m P = (\<forall>s x s'. m s = (Inr x, s') \<longrightarrow> P x)"

text \<open>Between the start \<open>s\<close> and the end \<open>s'\<close> of a handler: either no browser was launched
  and the running ones are the same, or one was launched, with handle \<open>launched s\<close>, and it
  is not running at the end.\<close>

definition no_leak :: "state \<Rightarrow> state \<Rightarrow> bool" where
  "no_leak s s' =
     ((launched s' = launched s \<and> running s' = running s) \<or>
      (launched s' = Suc (launched s) \<and> running s' = running s - {launched s}))"

text \<open>The entry of \<^verbatim>\<open>results\<close> for \<open>url\<close>: an error entry with the URL at the top
  level, or a success entry whose only fields are \<^verbatim>\<open>success\<close> and \<^verbatim>\<open>data\<close>, the
  URL being the first field of \<^verbatim>\<open>data\<close>.\<close>

definition entry_shape :: "json \<Rightarrow> json \<Rightarrow> bool" where
  "entry_shape url r =
     (r = JObj [(''url'', url), (''success'', JBool False), (''error'', JStr ''Invalid URL'')] \<or>
      r = JObj [(''url'', url), (''success'', JBool False), (''error'', JStr ''Analysis failed'')] \<or>
      (\<exists>rest. r = JObj [(''success'', JBool True), (''data'', JObj ((''url'', url) # rest))]))"

text \<open>A small page, an environment in which no call rejects and the constructor accepts
  the strings that start with \<^verbatim>\<open>https://\<close>, and the state of a fresh server; the closed
  instances below are computed on them.\<close>

definition sample_dom :: dom where
  "sample_dom =
     \<lparr>title = ''Shop'', body = Some ''Buy our product'',
      elements = [\<lparr>color = ''rgb(0, 0, 0)'', backgroundColor = ''rgba(0, 0, 0, 0)'',
                   fontFamily = ''Arial, sans-serif''\<rparr>],
      metaKeywords = [''shop, deals''], headings = [''Welcome'']\<rparr>"

definition sample_env :: env where
  "sample_env =
     \<lparr>URL_parses = (\<lambda>v. case v of JStr u \<Rightarrow> startsWith u ''https://'' | _ \<Rightarrow> False),
      rejects = (\<lambda>n. False),
      site = (\<lambda>n url. sample_dom),
      randomUUID = (\<lambda>n. ''id''),
      stringify = (\<lambda>v. ''{}'')\<rparr>"

definition start :: state where
  "start = \<lparr>calls = 0, uuids = 0, launched = 0, running = {}, dirs = {}, files = [],
            submissions = []\<rparr>"

text \<open>A page with two elements: black text on no background, which a browser computes as
  the transparent \<open>rgba(0, 0, 0, 0)\<close>, and orange text on a half-transparent black.\<close>

definition rgba_page :: dom where
  "rgba_page =
     \<lparr>title = ''Page'', body = Some ''text'',
      elements = [\<lparr>color = ''rgb(0, 0, 0)'', backgroundColor = ''rgba(0, 0, 0, 0)'',
                   fontFamily = ''Arial''\<rparr>,
                  \<lparr>color = ''rgb(255, 87, 51)'', backgroundColor = ''rgba(0, 0, 0, 0.5)'',
                   fontFamily = ''Arial''\<rparr>],
      metaKeywords = [], headings = []\<rparr>"

text \<open>
  The state in which the bulk loop reaches each URL of the list: an invalid URL leaves the
  state as it is, an analysis leaves the state it ended in, whether it returned or threw.
  \<open>bulk_entry\<close> is the entry the specification asks for at a URL reached in a state: the
  \<open>Invalid URL\<close> entry when the validator rejects it, the \<open>Analysis failed\<close> entry when the
  analysis throws, the success entry around the data otherwise.
\<close>

fun bulk_states :: "env \<Rightarrow> nat \<Rightarrow> json list \<Rightarrow> state \<Rightarrow> state list" where
  "bulk_states env browser [] s = []"
| "bulk_states env browser (url # urls) s =
     s # bulk_states env browser urls
           (if isValidUrl env (Some url)
            then snd (analyzeSingleWebsite env browser (Some url) s) else s)"

definition bulk_entry :: "env \<Rightarrow> nat \<Rightarrow> json \<Rightarrow> state \<Rightarrow> json" where
  "bulk_entry env browser url s =
     (if \<not> isValidUrl env (Some url)
      then JObj [(''url'', url), (''success'', JBool False), (''error'', JStr ''Invalid URL'')]
      else (case fst (analyzeSingleWebsite env browser (Some url) s) of
              Inl e \<Rightarrow> JObj [(''url'', url), (''success'', JBool False),
                              (''error'', JStr ''Analysis failed'')]
            | Inr data \<Rightarrow> JObj [(''success'', JBool True), (''data'', data)]))"

text \<open>Environments and requests for the closed instances: one in which the fourth
  automation call rejects, one whose pages have no body; a list of an invalid URL and two
  valid ones; a page on which two rules tie, and one on which no rule scores.\<close>

definition flaky_env :: env where
  "flaky_env = sample_env\<lparr>rejects := (\<lambda>n. n = 3)\<rparr>"

definition bulk_urls :: "json list" where
  "bulk_urls = [JStr ''not a url'', JStr ''https://down.example'', JStr ''https://example.com'']"

definition bulk_request :: json where
  "bulk_request = JObj [(''urls'', JArr bulk_urls)]"

definition nobody_env :: env where
  "nobody_env = sample_env\<lparr>site := (\<lambda>n url. sample_dom\<lparr>body := None\<rparr>)\<rparr>"

definition site_request :: json where
  "site_request = JObj [(''url'', JStr ''https://example.com'')]"

definition tie_page :: dom where
  "tie_page =
     \<lparr>title = ''Shop'', body = Some ''Our API'', elements = [], metaKeywords = [],
      headings = []\<rparr>"

definition plain_page :: dom where
  "plain_page =
     \<lparr>title = ''Hello'', body = Some ''World'', elements = [], metaKeywords = [],
      headings = []\<rparr>"

section \<open>Strings: what the helpers compute\<close>

lemma startsWith_iff: "startsWith s p \<longleftrightarrow> (\<exists>post. s = p @ post)"
proof
  assume "startsWith s p"
  then have "s = p @ drop (length p) s"
    unfolding startsWith_def by (metis append_take_drop_id)
  then show "\<exists>post. s = p @ post" ..
next
  assume "\<exists>post. s = p @ post"
  then show "startsWith s p" by (auto simp add: startsWith_def)
qed

text \<open>\<^const>\<open>str_includes\<close> is the substring test.\<close>

lemma str_includes_iff: "str_includes s k \<longleftrightarrow> (\<exists>pre post. s = pre @ k @ post)"
proof (induction s)
  case Nil
  then show ?case by auto
next
  case (Cons c cs)
  show ?case
  proof
    assume "str_includes (c # cs) k"
    then consider "startsWith (c # cs) k" | "str_includes cs k" by auto
    then show "\<exists>pre post. c # cs = pre @ k @ post"
    proof cases
      case 1
      then obtain post where "c # cs = k @ post" unfolding startsWith_iff ..
      then have "c # cs = [] @ k @ post" by simp
      then show ?thesis by blast
    next
      case 2
      with Cons.IH obtain pre post where "cs = pre @ k @ post" by blast
      then have "c # cs = (c # pre) @ k @ post" by simp
      then show ?thesis by blast
    qed
  next
    assume "\<exists>pre post. c # cs = pre @ k @ post"
    then obtain pre post where e: "c # cs = pre @ k @ post" by blast
    show "str_includes (c # cs) k"
    proof (cases pre)
      case Nil
      with e have "startsWith (c # cs) k" unfolding startsWith_iff by auto
      then show ?thesis by simp
    next
      case (Cons a pre')
      with e have "cs = pre' @ k @ post" by simp
      with Cons.IH have "str_includes cs k" by blast
      then show ?thesis by simp
    qed
  qed
qed

lemma keyword_score_acc:
  "foldl (\<lambda>score k. if str_includes text k then score + 1 else score) n ks =
   n + length (filter (\<lambda>k. str_includes text k) ks)"
  by (induction ks arbitrary: n) simp_all

text \<open>The score of a rule is the number of its keywords that occur in the text.\<close>

lemma keyword_score_filter:
  "keyword_score text ks = length (filter (\<lambda>k. str_includes text k) ks)"
  by (simp add: keyword_score_def keyword_score_acc)

lemma set_add_set: "set (set_add xs x) = insert x (set xs)"
  by (auto simp add: set_add_def)

lemma set_add_distinct: "distinct xs \<Longrightarrow> distinct (set_add xs x)"
  by (simp add: set_add_def)

lemma map_throw_length: "map_throw f xs = Inr ys \<Longrightarrow> length ys = length xs"
  by (induction xs arbitrary: ys) (auto split: sum.splits)

section \<open>Colour extraction\<close>

lemma toString16_length: "n < 256 \<Longrightarrow> length (toString16 n) \<le> 2"
proof -
  assume n: "n < 256"
  then have d: "n div 16 < 16" by simp
  show ?thesis
  proof (cases "n < 16")
    case True
    then show ?thesis by (simp add: toString16.simps)
  next
    case False
    have "toString16 n = toString16 (n div 16) @ [''0123456789abcdef'' ! (n mod 16)]"
      using False by (subst toString16.simps) simp
    moreover have "length (toString16 (n div 16)) = 1" using d by (simp add: toString16.simps)
    ultimately show ?thesis by simp
  qed
qed

lemma toString16_not_Nil: "toString16 n \<noteq> []"
  by (subst toString16.simps) simp

text \<open>A component below 256 becomes exactly two hexadecimal digits.\<close>

lemma hex2_length: "n < 256 \<Longrightarrow> length (hex2 n) = 2"
proof -
  assume "n < 256"
  then have "length (toString16 n) \<le> 2" by (rule toString16_length)
  moreover have "length (toString16 n) \<noteq> 0" using toString16_not_Nil by simp
  ultimately show ?thesis by (auto simp add: hex2_def padStart_def)
qed

text \<open>The caps hold in the three files.\<close>

lemma extractColors_page_cap: "extractColors_page d = Inr cs \<Longrightarrow> length cs \<le> 25"
  by (auto simp add: extractColors_page_def dest: map_throw_length)

lemma colors_page_001_cap: "colors_page_001 d = Inr cs \<Longrightarrow> length cs \<le> 20"
  by (auto simp add: colors_page_001_def dest: map_throw_length)

lemma hexColors_000_cap: "hexColors_000 raw = Inr cs \<Longrightarrow> length cs \<le> 30"
  by (auto simp add: hexColors_000_def split: sum.splits)

text \<open>part_000 turns a colour with three components below 256 into seven characters,
  whatever follows the third component.\<close>

lemma rgbToHex_length:
  assumes "rgbToHex rgb = Inr (Some h)" "\<forall>x \<in> set (take 3 (digit_runs [] rgb)). Number x < 256"
  shows "length h = 7 \<and> hd h = CHR ''#''"
proof -
  from assms(1) obtain r g b rest where m: "map Number (digit_runs [] rgb) = r # g # b # rest"
    and h: "h = CHR ''#'' # concat (map hex2 [r, g, b])"
    by (auto simp add: rgbToHex_def match_digits_def split: list.splits)
  from m obtain x y z zs where d: "digit_runs [] rgb = x # y # z # zs"
    and "Number x = r" "Number y = g" "Number z = b"
    by (auto simp add: map_eq_Cons_conv)
  with assms(2) have "r < 256" "g < 256" "b < 256" by simp_all
  with h show ?thesis by (simp add: hex2_length)
qed

lemmas hex_defs = startsWith_def set_add_def colorToHex_def rgbToHex_def match_digits_def
  isDigit_def hex2_def Number_def toString16.simps padStart_def

text \<open>part_000 on that page: three components of each colour, six digits each time.\<close>

lemma colors_000_rgba_page:
  "cssColors_page rgba_page = Inr [''rgb(0, 0, 0)'', ''rgb(255, 87, 51)'', ''rgba(0, 0, 0, 0.5)''] \<and>
   hexColors_000 [''rgb(0, 0, 0)'', ''rgb(255, 87, 51)'', ''rgba(0, 0, 0, 0.5)''] =
     Inr [''#000000'', ''#ff5733'', ''#000000'']"
  by (simp add: rgba_page_def cssColors_page_def hexColors_000_def hex_defs)

text \<open>
  C1. Every string of the colour output is a \<open>#\<close> and six hexadecimal digits, made from an
  \<open>rgb(r, g, b)\<close> triple, and the output is no longer than the cap. The caps hold
  (\<open>extractColors_page_cap\<close>, \<open>colors_page_001_cap\<close>, \<open>hexColors_000_cap\<close>) and part_000
  keeps three components (\<open>rgbToHex_length\<close>, \<open>colors_000_rgba_page\<close>), but index.js and
  part_001 convert every digit run of every string that starts with \<open>rgb\<close>: on the page
  above both return \<open>#00000000\<close>, eight digits, for the transparent background and
  \<open>#0000000005\<close>, ten digits, for the half-transparent one.
\<close>

theorem extractColors_rgba_eight_digits:
  "extractColors_page rgba_page =
     Inr [''#000000'', ''#00000000'', ''#ff5733'', ''#0000000005''] \<and>
   colors_page_001 rgba_page =
     Inr [''#000000'', ''#00000000'', ''#ff5733'', ''#0000000005''] \<and>
   length ''#00000000'' = 9 \<and> length ''#0000000005'' = 11"
  by (simp add: rgba_page_def extractColors_page_def collectColors_def colors_page_001_def
      collectColors_001_def hex_defs)

section \<open>Font classification\<close>

lemma classify_acc:
  "set (foldl (\<lambda>types f. set_add types (g f)) acc fonts) = set acc \<union> g ` set fonts"
  by (induction fonts arbitrary: acc) (auto simp add: set_add_set)

lemma classify_distinct:
  "distinct acc \<Longrightarrow> distinct (foldl (\<lambda>types f. set_add types (g f)) acc fonts)"
  by (induction fonts arbitrary: acc) (simp_all add: set_add_distinct)

text \<open>
  C6. Font classification is a total function into the three types: a name whose lower-case
  form contains \<open>mono\<close> is \<open>monospace\<close>; otherwise one that contains \<open>serif\<close> and not \<open>sans\<close>
  is \<open>serif\<close>; every other name is \<open>sans-serif\<close>. \<^verbatim>\<open>classifyFontTypes\<close> returns the
  types of its fonts, each once.
\<close>

theorem font_classification_total:
  "fontType f \<in> {''monospace'', ''serif'', ''sans-serif''} \<and>
   (fontType f = ''monospace'' \<longleftrightarrow> str_includes (toLowerCase f) ''mono'') \<and>
   (fontType f = ''serif'' \<longleftrightarrow>
      \<not> str_includes (toLowerCase f) ''mono'' \<and> str_includes (toLowerCase f) ''serif'' \<and>
      \<not> str_includes (toLowerCase f) ''sans'') \<and>
   (fontType f = ''sans-serif'' \<longleftrightarrow>
      \<not> str_includes (toLowerCase f) ''mono'' \<and>
      \<not> (str_includes (toLowerCase f) ''serif'' \<and> \<not> str_includes (toLowerCase f) ''sans'')) \<and>
   set (classifyFontTypes fonts) = fontType ` set fonts \<and>
   distinct (classifyFontTypes fonts)"
proof -
  have "set (classifyFontTypes fonts) = fontType ` set fonts"
    unfolding classifyFontTypes_def by (simp add: classify_acc)
  moreover have "distinct (classifyFontTypes fonts)"
    unfolding classifyFontTypes_def by (rule classify_distinct) simp
  ultimately show ?thesis by (simp add: fontType_def Let_def)
qed

theorem font_classification_total_witness:
  "fontType ''Roboto Mono'' = ''monospace'' \<and> fontType ''PT Serif'' = ''serif'' \<and>
   fontType ''Open Sans Serif'' = ''sans-serif'' \<and> fontType ''Arial'' = ''sans-serif'' \<and>
   set (classifyFontTypes [''Roboto Mono'', ''Arial'', ''Inter'']) =
     fontType ` set [''Roboto Mono'', ''Arial'', ''Inter'']"
proof -
  have m: "str_includes (toLowerCase ''Roboto Mono'') ''mono''"
    by (simp add: toLowerCase_def toLowerChar_def startsWith_def)
  have s: "\<not> str_includes (toLowerCase ''PT Serif'') ''mono'' \<and>
      str_includes (toLowerCase ''PT Serif'') ''serif'' \<and>
      \<not> str_includes (toLowerCase ''PT Serif'') ''sans''"
    by (simp add: toLowerCase_def toLowerChar_def startsWith_def)
  have o: "\<not> str_includes (toLowerCase ''Open Sans Serif'') ''mono'' \<and>
      \<not> (str_includes (toLowerCase ''Open Sans Serif'') ''serif'' \<and>
         \<not> str_includes (toLowerCase ''Open Sans Serif'') ''sans'')"
    by (simp add: toLowerCase_def toLowerChar_def startsWith_def)
  have a: "\<not> str_includes (toLowerCase ''Arial'') ''mono'' \<and>
      \<not> (str_includes (toLowerCase ''Arial'') ''serif'' \<and>
         \<not> str_includes (toLowerCase ''Arial'') ''sans'')"
    by (simp add: toLowerCase_def toLowerChar_def startsWith_def)
  from font_classification_total [of "''Roboto Mono''" "[''Roboto Mono'', ''Arial'', ''Inter'']"] m
  have 1: "fontType ''Roboto Mono'' = ''monospace''" and
       5: "set (classifyFontTypes [''Roboto Mono'', ''Arial'', ''Inter'']) =
           fontType ` set [''Roboto Mono'', ''Arial'', ''Inter'']"
    by blast+
  from font_classification_total [of "''PT Serif''" "[]"] s
  have 2: "fontType ''PT Serif'' = ''serif''" by blast
  from font_classification_total [of "''Open Sans Serif''" "[]"] o
  have 3: "fontType ''Open Sans Serif'' = ''sans-serif''" by blast
  from font_classification_total [of "''Arial''" "[]"] a
  have 4: "fontType ''Arial'' = ''sans-serif''" by blast
  from 1 2 3 4 5 show ?thesis by blast
qed


section \<open>Category classification\<close>

lemma overtakes_here:
  "h < sc r \<Longrightarrow> \<forall>q \<in> set rules. sc q \<le> sc r \<Longrightarrow> overtakes sc lab (r # rules) h (lab r) (sc r)"
  unfolding overtakes_def
  apply (rule exI [of _ "[]"])
  apply (rule exI [of _ r])
  apply (rule exI [of _ rules])
  apply simp
  done

lemma overtakes_later:
  assumes "overtakes sc lab rules h0 b' h'" "sc r0 \<le> h0" "h \<le> h0"
  shows "overtakes sc lab (r0 # rules) h b' h'"
proof -
  from assms(1) obtain pre r post where p: "rules = pre @ r # post" "b' = lab r" "h' = sc r"
        "h0 < sc r" "\<forall>p \<in> set pre. sc p < sc r" "\<forall>q \<in> set post. sc q \<le> sc r"
    unfolding overtakes_def by blast
  have 1: "r0 # rules = (r0 # pre) @ r # post" using p(1) by simp
  have 2: "\<forall>p \<in> set (r0 # pre). sc p < sc r" using p(4,5) assms(2) by simp
  have 3: "h < sc r" using p(4) assms(3) by simp
  show ?thesis unfolding overtakes_def
    apply (rule exI [of _ "r0 # pre"])
    apply (rule exI [of _ r])
    apply (rule exI [of _ post])
    using 1 2 3 p(2,3,6) apply blast
    done
qed

lemma category_loop_inv:
  "category_loop text rules (b, h) = (b', h') \<Longrightarrow>
     (b' = b \<and> h' = h \<and> (\<forall>r \<in> set rules. keyword_score text (snd r) \<le> h)) \<or>
     overtakes (\<lambda>r. keyword_score text (snd r)) fst rules h b' h'"
proof (induction rules arbitrary: b h)
  case Nil
  then show ?case by simp
next
  case (Cons rule rules)
  obtain l ks where rule: "rule = (l, ks)" by (cases rule)
  let ?sc = "\<lambda>r. keyword_score text (snd r)"
  show ?case
  proof (cases "keyword_score text ks > h")
    case True
    with Cons.prems rule have run: "category_loop text rules (l, keyword_score text ks) = (b', h')"
      by simp
    from Cons.IH [OF run] show ?thesis
    proof
      assume a: "b' = l \<and> h' = keyword_score text ks \<and> (\<forall>r \<in> set rules. ?sc r \<le> keyword_score text ks)"
      have "overtakes ?sc fst (rule # rules) h (fst rule) (?sc rule)"
        by (rule overtakes_here) (use a True rule in simp_all)
      with a rule show ?thesis by simp
    next
      assume "overtakes ?sc fst rules (keyword_score text ks) b' h'"
      then have "overtakes ?sc fst (rule # rules) h b' h'"
        by (rule overtakes_later) (use True rule in simp_all)
      then show ?thesis ..
    qed
  next
    case False
    with Cons.prems rule have run: "category_loop text rules (b, h) = (b', h')"
      by simp
    from Cons.IH [OF run] show ?thesis
    proof
      assume "b' = b \<and> h' = h \<and> (\<forall>r \<in> set rules. ?sc r \<le> h)"
      with False rule show ?thesis by simp
    next
      assume "overtakes ?sc fst rules h b' h'"
      then have "overtakes ?sc fst (rule # rules) h b' h'"
        by (rule overtakes_later) (use False rule in simp_all)
      then show ?thesis ..
    qed
  qed
qed

lemma overtakes_0: "overtakes sc lab rules 0 b' h' \<Longrightarrow> first_highest sc lab rules b'"
  unfolding overtakes_def first_highest_def by blast

lemma overtakes_pos: "overtakes sc lab rules h b' h' \<Longrightarrow> \<exists>r \<in> set rules. h < sc r"
  unfolding overtakes_def by auto

lemma bestCategory_cases:
  "((\<forall>r \<in> set rules. keyword_score text (snd r) = 0) \<and> bestCategory rules text = ''General Website'') \<or>
   first_highest (\<lambda>r. keyword_score text (snd r)) fst rules (bestCategory rules text)"
proof -
  obtain b' h' where run: "category_loop text rules (''General Website'', 0) = (b', h')"
    by (cases "category_loop text rules (''General Website'', 0)")
  have b: "bestCategory rules text = b'" using run by (simp add: bestCategory_def)
  from category_loop_inv [OF run] show ?thesis
  proof
    assume "b' = ''General Website'' \<and> h' = 0 \<and> (\<forall>r \<in> set rules. keyword_score text (snd r) \<le> 0)"
    with b show ?thesis by simp
  next
    assume "overtakes (\<lambda>r. keyword_score text (snd r)) fst rules 0 b' h'"
    then have "first_highest (\<lambda>r. keyword_score text (snd r)) fst rules b'" by (rule overtakes_0)
    with b show ?thesis by simp
  qed
qed

lemma first_highest_label: "first_highest sc lab rules best \<Longrightarrow> best \<in> lab ` set rules"
  unfolding first_highest_def by auto

lemma first_highest_pos: "first_highest sc lab rules best \<Longrightarrow> \<exists>r \<in> set rules. 0 < sc r"
  unfolding first_highest_def by auto

text \<open>part_001 runs the same loop: its count by \<^verbatim>\<open>filter\<close> is the score.\<close>

lemma category_loop_001_eq:
  "category_loop_001 text rules bh = category_loop text rules bh"
  by (induction "text" rules bh rule: category_loop.induct) (simp_all add: keyword_score_filter Let_def)

subsection \<open>The ranked variant of index.js\<close>

lemma scoreRules_acc:
  "fst (foldl (\<lambda>(categoryScores, wtags) rule.
        let score = keyword_score text (rule_keywords rule)
        in if score > 0
           then (categoryScores @ [(label rule, score)], foldl set_add wtags (tags rule))
           else (categoryScores, wtags)) (cs, ts) rules) =
   cs @ map (\<lambda>r. (label r, keyword_score text (rule_keywords r)))
          (filter (\<lambda>r. 0 < keyword_score text (rule_keywords r)) rules)"
  by (induction rules arbitrary: cs ts) (simp_all add: Let_def)

lemma scoreRules_fst:
  "fst (scoreRules rules text) =
   map (\<lambda>r. (label r, keyword_score text (rule_keywords r)))
     (filter (\<lambda>r. 0 < keyword_score text (rule_keywords r)) rules)"
  unfolding scoreRules_def by (simp add: scoreRules_acc)

lemma hd_insort_key:
  "hd (insort_key f x ys) = (if ys = [] \<or> f x \<le> f (hd ys) then x else hd ys)"
  by (cases ys) simp_all

lemma insort_key_not_Nil: "insort_key f x ys \<noteq> []"
  by (cases ys) simp_all

lemma hd_sortByScore:
  "cs \<noteq> [] \<Longrightarrow>
   \<exists>pre post. cs = pre @ hd (sortByScore cs) # post \<and>
      (\<forall>p \<in> set pre. snd p < snd (hd (sortByScore cs))) \<and>
      (\<forall>q \<in> set post. snd q \<le> snd (hd (sortByScore cs)))"
proof (induction cs)
  case Nil
  then show ?case by simp
next
  case (Cons x xs)
  show ?case
  proof (cases "xs = []")
    case True
    have "[x] = [] @ x # [] \<and> (\<forall>p \<in> set []. snd p < snd x) \<and> (\<forall>q \<in> set []. snd q \<le> snd x)"
      by simp
    then have "\<exists>pre post. [x] = pre @ x # post \<and> (\<forall>p \<in> set pre. snd p < snd x) \<and>
        (\<forall>q \<in> set post. snd q \<le> snd x)" by blast
    with True show ?thesis by (simp add: sortByScore_def)
  next
    case False
    let ?c = "hd (sortByScore xs)"
    from Cons.IH [OF False] obtain pre post where p: "xs = pre @ ?c # post"
      "\<forall>p \<in> set pre. snd p < snd ?c" "\<forall>q \<in> set post. snd q \<le> snd ?c"
      by blast
    have "length (sortByScore xs) = length xs" by (simp add: sortByScore_def)
    with False have ne: "sortByScore xs \<noteq> []" by auto
    have step: "sortByScore (x # xs) = insort_key (\<lambda>c. - int (snd c)) x (sortByScore xs)"
      by (simp add: sortByScore_def)
    have all: "\<forall>q \<in> set xs. snd q \<le> snd ?c"
    proof
      fix q assume "q \<in> set xs"
      then have "q \<in> set pre \<or> q = ?c \<or> q \<in> set post" by (subst (asm) p(1)) auto
      with p(2,3) show "snd q \<le> snd ?c" by fastforce
    qed
    show ?thesis
    proof (cases "snd ?c \<le> snd x")
      case True
      then have h: "hd (sortByScore (x # xs)) = x"
        using ne by (simp add: step hd_insort_key)
      have "\<forall>q \<in> set xs. snd q \<le> snd x" using all True by fastforce
      then show ?thesis
        apply (subst h)+
        apply (rule exI [of _ "[]"])
        apply (rule exI [of _ xs])
        apply simp
        done
    next
      case F: False
      then have h: "hd (sortByScore (x # xs)) = ?c"
        using ne by (simp add: step hd_insort_key)
      have 1: "x # xs = (x # pre) @ ?c # post" using p(1) by simp
      have 2: "\<forall>p \<in> set (x # pre). snd p < snd ?c" using p(2) F by simp
      show ?thesis
        apply (subst h)+
        apply (rule exI [of _ "x # pre"])
        apply (rule exI [of _ post])
        using 1 2 p(3) apply blast
        done
    qed
  qed
qed

lemma map_filter_split:
  "map g (filter P rules) = pre @ c # post \<Longrightarrow>
   \<exists>a r b. rules = a @ r # b \<and> P r \<and> g r = c \<and> map g (filter P a) = pre \<and> map g (filter P b) = post"
proof (induction rules arbitrary: pre)
  case Nil
  then show ?case by simp
next
  case (Cons x xs)
  show ?case
  proof (cases "P x")
    case False
    with Cons.prems have "map g (filter P xs) = pre @ c # post" by simp
    from Cons.IH [OF this] obtain a r b where
      "xs = a @ r # b" "P r" "g r = c" "map g (filter P a) = pre" "map g (filter P b) = post"
      by blast
    then have "x # xs = (x # a) @ r # b \<and> P r \<and> g r = c \<and> map g (filter P (x # a)) = pre \<and>
       map g (filter P b) = post" using False by simp
    then show ?thesis by blast
  next
    case True
    show ?thesis
    proof (cases pre)
      case Nil
      with Cons.prems True have "g x = c" "map g (filter P xs) = post" by simp_all
      then have "x # xs = [] @ x # xs \<and> P x \<and> g x = c \<and> map g (filter P []) = pre \<and>
         map g (filter P xs) = post" using Nil True by simp
      then show ?thesis by blast
    next
      case (Cons y ys)
      with Cons.prems True have y: "g x = y" and "map g (filter P xs) = ys @ c # post" by simp_all
      from Cons.IH [OF this(2)] obtain a r b where
        "xs = a @ r # b" "P r" "g r = c" "map g (filter P a) = ys" "map g (filter P b) = post"
        by blast
      then have "x # xs = (x # a) @ r # b \<and> P r \<and> g r = c \<and> map g (filter P (x # a)) = pre \<and>
         map g (filter P b) = post" using True y Cons by simp
      then show ?thesis by blast
    qed
  qed
qed

lemma websiteType_unfold:
  "websiteType (intelligenceOf rules text) =
     (case map fst (take 6 (sortByScore (fst (scoreRules rules text)))) of
        [] \<Rightarrow> ''General Website''
      | c # _ \<Rightarrow> (if c = [] then ''General Website'' else c))"
  by (simp add: intelligenceOf_def case_prod_unfold Let_def)

lemma categories_unfold:
  "categories (intelligenceOf rules text) =
     map fst (take 6 (sortByScore (fst (scoreRules rules text))))"
  by (simp add: intelligenceOf_def case_prod_unfold Let_def)

lemma top_label:
  "xs = y # ys \<Longrightarrow>
   (case map fst (take 6 xs) of [] \<Rightarrow> d | c # _ \<Rightarrow> (if c = [] then d else c)) =
   (if fst y = [] then d else fst y)"
  by simp

lemma websiteType_cases:
  assumes labels: "\<forall>r \<in> set rules. label r \<noteq> []"
  shows "((\<forall>r \<in> set rules. keyword_score text (rule_keywords r) = 0) \<and>
          websiteType (intelligenceOf rules text) = ''General Website'') \<or>
         first_highest (\<lambda>r. keyword_score text (rule_keywords r)) label rules
           (websiteType (intelligenceOf rules text))"
proof -
  let ?sc = "\<lambda>r. keyword_score text (rule_keywords r)"
  let ?g = "\<lambda>r. (label r, ?sc r)"
  let ?P = "\<lambda>r. 0 < ?sc r"
  let ?cs = "map ?g (filter ?P rules)"
  have cs: "fst (scoreRules rules text) = ?cs" by (rule scoreRules_fst)
  show ?thesis
  proof (cases "?cs = []")
    case True
    then have "\<forall>r \<in> set rules. ?sc r = 0" by (simp add: filter_empty_conv)
    moreover have "websiteType (intelligenceOf rules text) = ''General Website''"
      using True by (simp add: websiteType_unfold cs sortByScore_def)
    ultimately show ?thesis by blast
  next
    case False
    let ?c = "hd (sortByScore ?cs)"
    from hd_sortByScore [OF False] obtain pre post where p: "?cs = pre @ ?c # post"
      "\<forall>p \<in> set pre. snd p < snd ?c" "\<forall>q \<in> set post. snd q \<le> snd ?c"
      by blast
    from map_filter_split [OF p(1)] obtain a r b where s: "rules = a @ r # b" "?P r" "?g r = ?c"
      "map ?g (filter ?P a) = pre" "map ?g (filter ?P b) = post"
      by blast
    have "length (sortByScore ?cs) = length ?cs" by (simp add: sortByScore_def)
    with False have ne: "sortByScore ?cs \<noteq> []" by auto
    then obtain y ys where so: "sortByScore ?cs = y # ys" by (cases "sortByScore ?cs") auto
    then have y: "y = ?c" by simp
    have "r \<in> set rules" using s(1) by simp
    then have lab: "label r \<noteq> []" using labels by blast
    have fstc: "fst ?c = label r" and sndc: "snd ?c = ?sc r" using s(3) [symmetric] by simp_all
    have "websiteType (intelligenceOf rules text) = (if fst y = [] then ''General Website'' else fst y)"
      unfolding websiteType_unfold cs by (rule top_label [OF so])
    then have wt: "websiteType (intelligenceOf rules text) = label r"
      using y fstc lab by simp
    have before: "\<forall>p \<in> set a. ?sc p < ?sc r"
    proof
      fix q assume q: "q \<in> set a"
      show "?sc q < ?sc r"
      proof (cases "?P q")
        case True
        with q have "?g q \<in> set (map ?g (filter ?P a))" by auto
        then have "?g q \<in> set pre" using s(4) by simp
        with p(2) have "snd (?g q) < snd ?c" by blast
        then show ?thesis using sndc by simp
      next
        case False
        then show ?thesis using s(2) by simp
      qed
    qed
    have after: "\<forall>q \<in> set b. ?sc q \<le> ?sc r"
    proof
      fix q assume q: "q \<in> set b"
      show "?sc q \<le> ?sc r"
      proof (cases "?P q")
        case True
        with q have "?g q \<in> set (map ?g (filter ?P b))" by auto
        then have "?g q \<in> set post" using s(5) by simp
        with p(3) have "snd (?g q) \<le> snd ?c" by blast
        then show ?thesis using sndc by simp
      next
        case False
        then show ?thesis by simp
      qed
    qed
    have "first_highest ?sc label rules (label r)"
      unfolding first_highest_def
      apply (rule exI [of _ a])
      apply (rule exI [of _ r])
      apply (rule exI [of _ b])
      using s(1,2) before after apply blast
      done
    with wt show ?thesis by simp
  qed
qed

lemma rules_000_labels: "''General Website'' \<notin> fst ` set rules_000"
  by (simp add: rules_000_def)

lemma CATEGORY_RULES_labels:
  "\<forall>r \<in> set CATEGORY_RULES. label r \<noteq> []" "''General Website'' \<notin> label ` set CATEGORY_RULES"
  by (simp_all add: CATEGORY_RULES_def)

text \<open>On a text, whatever it is: the default when no rule scores, otherwise the label of the
  first rule that reaches the highest score.\<close>

lemma category_of_text:
  "(if \<forall>r \<in> set rules_000. keyword_score text (snd r) = 0
    then bestCategory rules_000 text = ''General Website''
    else first_highest (\<lambda>r. keyword_score text (snd r)) fst rules_000 (bestCategory rules_000 text) \<and>
         bestCategory rules_000 text \<noteq> ''General Website'') \<and>
   (if \<forall>r \<in> set CATEGORY_RULES. keyword_score text (rule_keywords r) = 0
    then websiteType (intelligenceOf CATEGORY_RULES text) = ''General Website''
    else first_highest (\<lambda>r. keyword_score text (rule_keywords r)) label CATEGORY_RULES
           (websiteType (intelligenceOf CATEGORY_RULES text)) \<and>
         websiteType (intelligenceOf CATEGORY_RULES text) \<noteq> ''General Website'')"
proof (intro conjI)
  let ?sc = "\<lambda>r. keyword_score text (snd r)"
  show "if \<forall>r \<in> set rules_000. ?sc r = 0
    then bestCategory rules_000 text = ''General Website''
    else first_highest ?sc fst rules_000 (bestCategory rules_000 text) \<and>
         bestCategory rules_000 text \<noteq> ''General Website''"
  proof (cases "\<forall>r \<in> set rules_000. ?sc r = 0")
    case True
    from bestCategory_cases [of rules_000 "text"] have "bestCategory rules_000 text = ''General Website''"
    proof
      assume "(\<forall>r \<in> set rules_000. ?sc r = 0) \<and> bestCategory rules_000 text = ''General Website''"
      then show ?thesis by simp
    next
      assume "first_highest ?sc fst rules_000 (bestCategory rules_000 text)"
      from first_highest_pos [OF this] True show ?thesis by auto
    qed
    with True show ?thesis by simp
  next
    case False
    from bestCategory_cases [of rules_000 "text"] False
    have fh: "first_highest ?sc fst rules_000 (bestCategory rules_000 text)" by blast
    have "bestCategory rules_000 text \<noteq> ''General Website''"
    proof
      assume "bestCategory rules_000 text = ''General Website''"
      with first_highest_label [OF fh] have "''General Website'' \<in> fst ` set rules_000" by simp
      with rules_000_labels show False by blast
    qed
    with fh False show ?thesis by simp
  qed
next
  let ?sc = "\<lambda>r. keyword_score text (rule_keywords r)"
  let ?w = "websiteType (intelligenceOf CATEGORY_RULES text)"
  note cases = websiteType_cases [OF CATEGORY_RULES_labels(1), of "text"]
  show "if \<forall>r \<in> set CATEGORY_RULES. ?sc r = 0
    then ?w = ''General Website''
    else first_highest ?sc label CATEGORY_RULES ?w \<and> ?w \<noteq> ''General Website''"
  proof (cases "\<forall>r \<in> set CATEGORY_RULES. ?sc r = 0")
    case True
    from cases have "?w = ''General Website''"
    proof
      assume "(\<forall>r \<in> set CATEGORY_RULES. ?sc r = 0) \<and> ?w = ''General Website''"
      then show ?thesis by simp
    next
      assume "first_highest ?sc label CATEGORY_RULES ?w"
      from first_highest_pos [OF this] True show ?thesis by auto
    qed
    with True show ?thesis by simp
  next
    case False
    from cases False have fh: "first_highest ?sc label CATEGORY_RULES ?w" by blast
    have "?w \<noteq> ''General Website''"
    proof
      assume "?w = ''General Website''"
      with first_highest_label [OF fh] have "''General Website'' \<in> label ` set CATEGORY_RULES"
        by simp
      with CATEGORY_RULES_labels(2) show False by blast
    qed
    with fh False show ?thesis by simp
  qed
qed

lemma keyword_score_substrings:
  "keyword_score text ks = length (filter (\<lambda>k. \<exists>pre post. text = pre @ k @ post) ks)"
  by (simp add: keyword_score_filter str_includes_iff)

text \<open>
  C3. Classification is a function of the page and the table. The text scored is the title, a
  blank and the first 3000 characters of the body text (6000 in index.js), lower-cased; the
  score of a rule is the number of its keywords that occur in it as substrings. When no
  rule of the table scores, the answer is \<open>General Website\<close>; otherwise it is the label of
  the first rule that reaches the highest score, and it is not \<open>General Website\<close>. This holds
  for the function \<^verbatim>\<open>extractCategory\<close> of part_000 evaluates in the page and for the
  \<^verbatim>\<open>websiteType\<close> of index.js, and the extractors return what these functions return
  when the evaluation call does not reject.
\<close>

theorem category_classification:
  assumes "body d = Some b"
  shows "(\<exists>c. category_page_000 d = Inr c \<and>
            (if \<forall>r \<in> set rules_000.
                  keyword_score (toLowerCase (title d @ '' '' @ take 3000 b)) (snd r) = 0
             then c = ''General Website''
             else first_highest
                    (\<lambda>r. keyword_score (toLowerCase (title d @ '' '' @ take 3000 b)) (snd r))
                    fst rules_000 c \<and>
                  c \<noteq> ''General Website'')) \<and>
         (\<exists>i. intelligence_page d = Inr i \<and>
            (if \<forall>r \<in> set CATEGORY_RULES.
                  keyword_score (toLowerCase (title d @ '' '' @ take 6000 b)) (rule_keywords r) = 0
             then websiteType i = ''General Website''
             else first_highest
                    (\<lambda>r. keyword_score (toLowerCase (title d @ '' '' @ take 6000 b))
                           (rule_keywords r))
                    label CATEGORY_RULES (websiteType i) \<and>
                  websiteType i \<noteq> ''General Website'')) \<and>
         (\<not> rejects env (calls s) \<longrightarrow>
            fst (extractCategory env d s) = category_page_000 d \<and>
            fst (extractWebsiteIntelligence env d s) = intelligence_page d) \<and>
         (\<forall>txt ks. keyword_score txt ks =
            length (filter (\<lambda>k. \<exists>pre post. txt = pre @ k @ post) ks))"
proof (intro conjI)
  let ?t3 = "toLowerCase (title d @ '' '' @ take 3000 b)"
  let ?t6 = "toLowerCase (title d @ '' '' @ take 6000 b)"
  have c: "category_page_000 d = Inr (bestCategory rules_000 ?t3)"
    using assms by (simp add: category_page_000_def page_text_def)
  have i: "intelligence_page d = Inr (intelligenceOf CATEGORY_RULES ?t6)"
    using assms by (simp add: intelligence_page_def page_text_def)
  from category_of_text [of ?t3] c
  show "\<exists>c. category_page_000 d = Inr c \<and>
            (if \<forall>r \<in> set rules_000. keyword_score ?t3 (snd r) = 0
             then c = ''General Website''
             else first_highest (\<lambda>r. keyword_score ?t3 (snd r)) fst rules_000 c \<and>
                  c \<noteq> ''General Website'')"
    by blast
  from category_of_text [of ?t6] i
  show "\<exists>i. intelligence_page d = Inr i \<and>
            (if \<forall>r \<in> set CATEGORY_RULES. keyword_score ?t6 (rule_keywords r) = 0
             then websiteType i = ''General Website''
             else first_highest (\<lambda>r. keyword_score ?t6 (rule_keywords r))
                    label CATEGORY_RULES (websiteType i) \<and>
                  websiteType i \<noteq> ''General Website'')"
    by blast
  show "\<not> rejects env (calls s) \<longrightarrow>
            fst (extractCategory env d s) = category_page_000 d \<and>
            fst (extractWebsiteIntelligence env d s) = intelligence_page d"
    using c by (simp add: extractCategory_def extractWebsiteIntelligence_def try_default_def
        evaluate_def bind_def call_def lift_def)
  show "\<forall>txt ks. keyword_score txt ks =
            length (filter (\<lambda>k. \<exists>pre post. txt = pre @ k @ post) ks)"
    using keyword_score_substrings by blast
qed

lemmas text_defs = toLowerCase_def toLowerChar_def keyword_score_def startsWith_def

theorem category_classification_witness:
  "body tie_page = Some ''Our API'' \<and>
   category_page_000 tie_page = Inr ''E-commerce'' \<and>
   first_highest (\<lambda>r. keyword_score ''shop our api'' (snd r)) fst rules_000 ''E-commerce'' \<and>
   (\<exists>i. intelligence_page tie_page = Inr i \<and> websiteType i = ''Technology'') \<and>
   first_highest (\<lambda>r. keyword_score ''shop our api'' (rule_keywords r)) label CATEGORY_RULES
     ''Technology'' \<and>
   fst (extractCategory sample_env tie_page start) = Inr ''E-commerce'' \<and>
   body plain_page = Some ''World'' \<and>
   category_page_000 plain_page = Inr ''General Website'' \<and>
   (\<exists>i. intelligence_page plain_page = Inr i \<and> websiteType i = ''General Website'')"
proof -
  have h: "body tie_page = Some ''Our API''" by (simp add: tie_page_def)
  have t: "toLowerCase (title tie_page @ '' '' @ take 3000 ''Our API'') = ''shop our api''"
    "toLowerCase (title tie_page @ '' '' @ take 6000 ''Our API'') = ''shop our api''"
    by (simp_all add: tie_page_def toLowerCase_def toLowerChar_def)
  have nz: "\<not> (\<forall>r \<in> set rules_000. keyword_score ''shop our api'' (snd r) = 0)"
    "\<not> (\<forall>r \<in> set CATEGORY_RULES. keyword_score ''shop our api'' (rule_keywords r) = 0)"
    by (simp_all add: rules_000_def CATEGORY_RULES_def keyword_score_def startsWith_def)
  have ec: "category_page_000 tie_page = Inr ''E-commerce''"
    by (simp add: category_page_000_def page_text_def tie_page_def bestCategory_def rules_000_def
        text_defs)
  have ei: "\<exists>i. intelligence_page tie_page = Inr i \<and> websiteType i = ''Technology''"
    by (simp add: intelligence_page_def page_text_def tie_page_def intelligenceOf_def
        scoreRules_def sortByScore_def CATEGORY_RULES_def set_add_def text_defs)
  note th = category_classification [OF h, where env = sample_env and s = start,
      unfolded t]
  from th obtain c where c: "category_page_000 tie_page = Inr c"
    "if \<forall>r \<in> set rules_000. keyword_score ''shop our api'' (snd r) = 0
     then c = ''General Website''
     else first_highest (\<lambda>r. keyword_score ''shop our api'' (snd r)) fst rules_000 c \<and>
          c \<noteq> ''General Website''"
    by blast
  from c(1) ec have "c = ''E-commerce''" by simp
  with c(2) [unfolded if_not_P [OF nz(1)]]
  have 1: "first_highest (\<lambda>r. keyword_score ''shop our api'' (snd r)) fst rules_000 ''E-commerce''"
    by blast
  from th obtain i where i: "intelligence_page tie_page = Inr i"
    "if \<forall>r \<in> set CATEGORY_RULES. keyword_score ''shop our api'' (rule_keywords r) = 0
     then websiteType i = ''General Website''
     else first_highest (\<lambda>r. keyword_score ''shop our api'' (rule_keywords r)) label
            CATEGORY_RULES (websiteType i) \<and>
          websiteType i \<noteq> ''General Website''"
    by blast
  from i(1) ei have "websiteType i = ''Technology''" by auto
  with i(2) [unfolded if_not_P [OF nz(2)]]
  have 2: "first_highest (\<lambda>r. keyword_score ''shop our api'' (rule_keywords r)) label
      CATEGORY_RULES ''Technology''"
    by metis
  have nr: "\<not> rejects sample_env (calls start)" by (simp add: sample_env_def)
  from th nr ec have 3: "fst (extractCategory sample_env tie_page start) = Inr ''E-commerce''"
    by simp
  have hp: "body plain_page = Some ''World''" by (simp add: plain_page_def)
  have tp: "toLowerCase (title plain_page @ '' '' @ take 3000 ''World'') = ''hello world''"
    "toLowerCase (title plain_page @ '' '' @ take 6000 ''World'') = ''hello world''"
    by (simp_all add: plain_page_def toLowerCase_def toLowerChar_def)
  have z: "list_all (\<lambda>r. keyword_score ''hello world'' (snd r) = 0) rules_000"
    "list_all (\<lambda>r. keyword_score ''hello world'' (rule_keywords r) = 0) CATEGORY_RULES"
    by (simp_all add: rules_000_def CATEGORY_RULES_def keyword_score_def startsWith_def)
  then have z': "\<forall>r \<in> set rules_000. keyword_score ''hello world'' (snd r) = 0"
    "\<forall>r \<in> set CATEGORY_RULES. keyword_score ''hello world'' (rule_keywords r) = 0"
    by (simp_all add: list_all_iff)
  note tp' = category_classification [OF hp, where env = sample_env and s = start,
      unfolded tp, unfolded if_P [OF z'(1)] if_P [OF z'(2)]]
  from tp' have 4: "category_page_000 plain_page = Inr ''General Website''"
    by blast
  from tp'
  have 5: "\<exists>i. intelligence_page plain_page = Inr i \<and> websiteType i = ''General Website''"
    by blast
  from h ec 1 ei 2 3 hp 4 5 show ?thesis by blast
qed

section \<open>Browser sessions\<close>

lemma frameD: "frame m \<Longrightarrow> m s = (r, s') \<Longrightarrow> launched s' = launched s \<and> running s' = running s"
  unfolding frame_def by blast

lemma frame_unit: "frame (unit x)"
  by (simp add: frame_def unit_def)

lemma frame_lift: "frame (lift r)"
  by (simp add: frame_def lift_def)

lemma frame_call: "frame (call env)"
  by (auto simp add: frame_def call_def)

lemma frame_bind:
  assumes m: "frame m" and f: "\<And>x. frame (f x)"
  shows "frame (bind m f)"
  unfolding frame_def
proof (intro allI impI)
  fix s r s'
  assume b: "bind m f s = (r, s')"
  obtain r1 s1 where ms: "m s = (r1, s1)" by (cases "m s")
  note 1 = frameD [OF m ms]
  show "launched s' = launched s \<and> running s' = running s"
  proof (cases r1)
    case (Inl e)
    with b ms have "s' = s1" by (simp add: bind_def)
    with 1 show ?thesis by simp
  next
    case (Inr x)
    with b ms have "f x s1 = (r, s')" by (simp add: bind_def)
    from frameD [OF f this] 1 show ?thesis by simp
  qed
qed

lemma frame_attempt:
  assumes m: "frame m"
  shows "frame (attempt m)"
  unfolding frame_def
proof (intro allI impI)
  fix s r s'
  assume b: "attempt m s = (r, s')"
  obtain r1 s1 where ms: "m s = (r1, s1)" by (cases "m s")
  with b have "s' = s1" by (cases r1) (simp_all add: attempt_def)
  with frameD [OF m ms] show "launched s' = launched s \<and> running s' = running s" by simp
qed

lemma frame_try_default:
  assumes m: "frame m"
  shows "frame (try_default m d)"
  unfolding frame_def
proof (intro allI impI)
  fix s r s'
  assume b: "try_default m d s = (r, s')"
  obtain r1 s1 where ms: "m s = (r1, s1)" by (cases "m s")
  with b have "s' = s1" by (cases r1) (simp_all add: try_default_def)
  with frameD [OF m ms] show "launched s' = launched s \<and> running s' = running s" by simp
qed

lemma frame_goto: "frame (goto env url)"
  by (auto simp add: frame_def goto_def call_def)

lemma frame_screenshot: "frame (screenshot env path)"
  by (auto simp add: frame_def screenshot_def call_def)

lemma frame_capture: "frame (capture env path ws w)"
  by (auto simp add: frame_def capture_def screenshot_def call_def)

lemma frame_evaluate: "frame (evaluate env f d)"
  unfolding evaluate_def by (intro frame_bind frame_call frame_lift)

lemma frame_page_title: "frame (page_title env d)"
  unfolding page_title_def by (intro frame_bind frame_call frame_unit)

lemmas frame_intros = frame_bind frame_unit frame_lift frame_call frame_goto frame_screenshot
  frame_capture frame_evaluate frame_page_title frame_attempt frame_try_default



lemma frame_analyze_steps: "frame (analyze_steps env b url x y)"
  unfolding analyze_steps_def extractWebsiteIntelligence_def extractColors_def extractFonts_def
  by (intro frame_intros)

lemma frame_analyzeSingleWebsite: "frame (analyzeSingleWebsite env b url)"
  unfolding frame_def
proof (intro allI impI)
  fix s r s'
  assume "analyzeSingleWebsite env b url s = (r, s')"
  then have "analyze_steps env b url (''desktop-'' @ randomUUID env (uuids s) @ ''.webp'')
      (''mobile-'' @ randomUUID env (uuids s) @ ''.webp'') (s\<lparr>uuids := Suc (uuids s)\<rparr>) = (r, s')"
    by (simp add: analyzeSingleWebsite_def crypto_randomUUID_def)
  from frameD [OF frame_analyze_steps this]
  show "launched s' = launched s \<and> running s' = running s" by simp
qed

lemma frame_analyze_steps_000: "frame (analyze_steps_000 env b url x y)"
  unfolding analyze_steps_000_def hardenPage_def stabilizePage_def forceLoadImages_def
    aggressiveScroll_def extractCategory_def extractCSSColors_def extractFonts_000_def
    extractTags_def
  by (intro frame_intros)

lemma bulk_loop_frame:
  "bulk_loop env b urls results s = (results', s') \<Longrightarrow>
   launched s' = launched s \<and> running s' = running s"
proof (induction urls arbitrary: results s)
  case Nil
  then show ?case by simp
next
  case (Cons url urls)
  show ?case
  proof (cases "isValidUrl env (Some url)")
    case False
    with Cons.prems Cons.IH show ?thesis by simp
  next
    case True
    obtain r s1 where a: "analyzeSingleWebsite env b (Some url) s = (r, s1)"
      by (cases "analyzeSingleWebsite env b (Some url) s")
    note f = frameD [OF frame_analyzeSingleWebsite a]
    show ?thesis
    proof (cases r)
      case (Inl e)
      with Cons.prems True a have "bulk_loop env b urls
          (results @ [JObj [(''url'', url), (''success'', JBool False),
                                    (''error'', JStr ''Analysis failed'')]]) s1 = (results', s')"
        by simp
      from Cons.IH [OF this] f show ?thesis by simp
    next
      case (Inr data)
      with Cons.prems True a have "bulk_loop env b urls
          (results @ [JObj [(''success'', JBool True), (''data'', data)]]) s1 = (results', s')"
        by simp
      from Cons.IH [OF this] f show ?thesis by simp
    qed
  qed
qed

lemma launch_cases:
  "(rejects env (calls s) \<and> launch env s = (Inl AutomationError, s\<lparr>calls := Suc (calls s)\<rparr>)) \<or>
   (\<not> rejects env (calls s) \<and>
    launch env s = (Inr (launched s),
      s\<lparr>calls := Suc (calls s), launched := Suc (launched s),
        running := insert (launched s) (running s)\<rparr>))"
  by (simp add: launch_def call_def)

lemma ensureDir_frame: "launched (ensureDir d s) = launched s \<and> running (ensureDir d s) = running s \<and> calls (ensureDir d s) = calls s"
  by (simp add: ensureDir_def)

lemma analyze_no_leak: "no_leak s (snd (analyze env reqbody s))"
proof (cases "isValidUrl env (get reqbody ''url'')")
  case False
  then show ?thesis by (simp add: analyze_def no_leak_def)
next
  case True
  let ?s1 = "ensureDir ''screenshots'' s"
  from launch_cases [of env ?s1] show ?thesis
  proof
    assume "rejects env (calls ?s1) \<and> launch env ?s1 = (Inl AutomationError, ?s1\<lparr>calls := Suc (calls ?s1)\<rparr>)"
    with True show ?thesis by (simp add: analyze_def no_leak_def ensureDir_frame)
  next
    assume l: "\<not> rejects env (calls ?s1) \<and>
      launch env ?s1 = (Inr (launched ?s1),
        ?s1\<lparr>calls := Suc (calls ?s1), launched := Suc (launched ?s1),
          running := insert (launched ?s1) (running ?s1)\<rparr>)"
    let ?s2 = "?s1\<lparr>calls := Suc (calls ?s1), launched := Suc (launched ?s1),
          running := insert (launched ?s1) (running ?s1)\<rparr>"
    obtain r s3 where a: "analyzeSingleWebsite env (launched ?s1) (get reqbody ''url'') ?s2 = (r, s3)"
      by (cases "analyzeSingleWebsite env (launched ?s1) (get reqbody ''url'') ?s2")
    from frameD [OF frame_analyzeSingleWebsite a]
    have f: "launched s3 = Suc (launched s)" "running s3 = insert (launched s) (running s)"
      by (simp_all add: ensureDir_frame)
    have "snd (analyze env reqbody s) = browser_close (launched s) s3"
      using True l a by (cases r) (simp_all add: analyze_def ensureDir_frame)
    then show ?thesis using f by (simp add: no_leak_def browser_close_def)
  qed
qed

lemma analyze_bulk_no_leak: "no_leak s (snd (analyze_bulk env reqbody s))"
proof (cases "\<exists>urls. get reqbody ''urls'' = Some (JArr urls) \<and> urls \<noteq> []")
  case False
  then have "snd (analyze_bulk env reqbody s) = s"
    by (auto simp add: analyze_bulk_def split: option.splits json.splits)
  then show ?thesis by (simp add: no_leak_def)
next
  case True
  then obtain urls where u: "get reqbody ''urls'' = Some (JArr urls)" "urls \<noteq> []" by blast
  let ?s1 = "ensureDir ''screenshots'' s"
  from launch_cases [of env ?s1] show ?thesis
  proof
    assume "rejects env (calls ?s1) \<and> launch env ?s1 = (Inl AutomationError, ?s1\<lparr>calls := Suc (calls ?s1)\<rparr>)"
    with u show ?thesis by (simp add: analyze_bulk_def no_leak_def ensureDir_frame)
  next
    assume l: "\<not> rejects env (calls ?s1) \<and>
      launch env ?s1 = (Inr (launched ?s1),
        ?s1\<lparr>calls := Suc (calls ?s1), launched := Suc (launched ?s1),
          running := insert (launched ?s1) (running ?s1)\<rparr>)"
    let ?s2 = "?s1\<lparr>calls := Suc (calls ?s1), launched := Suc (launched ?s1),
          running := insert (launched ?s1) (running ?s1)\<rparr>"
    obtain rs s3 where a: "bulk_loop env (launched ?s1) urls [] ?s2 = (rs, s3)"
      by (cases "bulk_loop env (launched ?s1) urls [] ?s2")
    from bulk_loop_frame [OF a]
    have f: "launched s3 = Suc (launched s)" "running s3 = insert (launched s) (running s)"
      by (simp_all add: ensureDir_frame)
    have "snd (analyze_bulk env reqbody s) = browser_close (launched s) s3"
      using u l a by (simp add: analyze_bulk_def ensureDir_frame)
    then show ?thesis using f by (simp add: no_leak_def browser_close_def)
  qed
qed

lemma analyze_000_no_leak: "no_leak s (snd (analyze_000 env reqbody s))"
proof (cases "\<not> truthy (get reqbody ''url'') \<or> \<not> isValidUrl env (get reqbody ''url'')")
  case True
  then have "snd (analyze_000 env reqbody s) = s"
    by (auto simp add: analyze_000_def)
  then show ?thesis by (simp add: no_leak_def)
next
  case False
  let ?s1 = "ensureDir ''screenshots'' s"
  let ?id = "randomUUID env (uuids ?s1)"
  let ?s2 = "?s1\<lparr>uuids := Suc (uuids ?s1)\<rparr>"
  have s2: "launched ?s2 = launched s" "running ?s2 = running s"
    by (simp_all add: ensureDir_frame)
  from launch_cases [of env ?s2] show ?thesis
  proof
    assume "rejects env (calls ?s2) \<and> launch env ?s2 = (Inl AutomationError, ?s2\<lparr>calls := Suc (calls ?s2)\<rparr>)"
    with False have "snd (analyze_000 env reqbody s) = ?s2\<lparr>calls := Suc (calls ?s2)\<rparr>"
      by (simp add: analyze_000_def crypto_randomUUID_def Let_def)
    then show ?thesis using s2 by (simp add: no_leak_def)
  next
    assume l: "\<not> rejects env (calls ?s2) \<and>
      launch env ?s2 = (Inr (launched ?s2),
        ?s2\<lparr>calls := Suc (calls ?s2), launched := Suc (launched ?s2),
          running := insert (launched ?s2) (running ?s2)\<rparr>)"
    let ?s3 = "?s2\<lparr>calls := Suc (calls ?s2), launched := Suc (launched ?s2),
          running := insert (launched ?s2) (running ?s2)\<rparr>"
    obtain r s4 where a: "analyze_steps_000 env (launched ?s2) (get reqbody ''url'')
        (''desktop-'' @ ?id @ ''.webp'') (''mobile-'' @ ?id @ ''.webp'') ?s3 = (r, s4)"
      by (cases "analyze_steps_000 env (launched ?s2) (get reqbody ''url'')
        (''desktop-'' @ ?id @ ''.webp'') (''mobile-'' @ ?id @ ''.webp'') ?s3")
    from frameD [OF frame_analyze_steps_000 a]
    have f: "launched s4 = Suc (launched s)" "running s4 = insert (launched s) (running s)"
      using s2 by simp_all
    have "snd (analyze_000 env reqbody s) = browser_close (launched s) s4"
      using False l a s2 by (cases r) (simp_all add: analyze_000_def crypto_randomUUID_def Let_def)
    then show ?thesis using f by (simp add: no_leak_def browser_close_def)
  qed
qed

text \<open>
  C9. Whatever the request and whichever call rejects, when a handler that launched a browser
  ends, that browser is not running: the \<^verbatim>\<open>finally\<close> block has closed it. This holds
  for \<^verbatim>\<open>/analyze\<close> and \<^verbatim>\<open>/analyze/bulk\<close> of index.js and for \<^verbatim>\<open>/analyze\<close> of
  part_000; a handler launches at most one browser, and leaves the others as they were.
\<close>

theorem browser_always_closed:
  "no_leak s (snd (analyze env reqbody s)) \<and>
   no_leak s (snd (analyze_bulk env reqbody s)) \<and>
   no_leak s (snd (analyze_000 env reqbody s))"
  by (intro conjI analyze_no_leak analyze_bulk_no_leak analyze_000_no_leak)

lemmas io_defs = bind_def unit_def lift_def call_def launch_def goto_def evaluate_def
  page_title_def screenshot_def crypto_randomUUID_def ensureDir_def new_URL_def isValidUrl_def
  attempt_def try_default_def capture_def browser_close_def

text \<open>An instance: the navigation (the fourth call) times out after the launch.\<close>

theorem browser_always_closed_witness:
  "launched (snd (analyze (sample_env\<lparr>rejects := (\<lambda>n. n = 3)\<rparr>)
      (JObj [(''url'', JStr ''https://example.com'')]) start)) = 1 \<and>
   status (fst (analyze (sample_env\<lparr>rejects := (\<lambda>n. n = 3)\<rparr>)
      (JObj [(''url'', JStr ''https://example.com'')]) start)) = 500 \<and>
   running (snd (analyze (sample_env\<lparr>rejects := (\<lambda>n. n = 3)\<rparr>)
      (JObj [(''url'', JStr ''https://example.com'')]) start)) = {}"
proof -
  let ?s' = "snd (analyze (sample_env\<lparr>rejects := (\<lambda>n. n = 3)\<rparr>)
      (JObj [(''url'', JStr ''https://example.com'')]) start)"
  have l: "launched ?s' = 1"
    by (simp add: analyze_def analyzeSingleWebsite_def analyze_steps_def io_defs sample_env_def
        start_def get_def startsWith_def message_def Let_def)
  have st: "status (fst (analyze (sample_env\<lparr>rejects := (\<lambda>n. n = 3)\<rparr>)
      (JObj [(''url'', JStr ''https://example.com'')]) start)) = 500"
    by (simp add: analyze_def analyzeSingleWebsite_def analyze_steps_def io_defs sample_env_def
        start_def get_def startsWith_def message_def Let_def)
  have s0: "launched start = 0" "running start = {}" by (simp_all add: start_def)
  from browser_always_closed [of start "sample_env\<lparr>rejects := (\<lambda>n. n = 3)\<rparr>"
      "JObj [(''url'', JStr ''https://example.com'')]"]
  have "no_leak start ?s'" by (rule conjunct1)
  with l s0 have "running ?s' = {}" by (simp add: no_leak_def)
  with l st show ?thesis by simp
qed


section \<open>Bulk analysis\<close>

lemma yieldsD: "yields m P \<Longrightarrow> m s = (Inr x, s') \<Longrightarrow> P x"
  unfolding yields_def by blast

lemma yields_unit: "P x \<Longrightarrow> yields (unit x) P"
  by (simp add: yields_def unit_def)

lemma yields_bind:
  assumes f: "\<And>x. yields (f x) P"
  shows "yields (bind m f) P"
  unfolding yields_def
proof (intro allI impI)
  fix s y s'
  assume b: "bind m f s = (Inr y, s')"
  obtain r1 s1 where ms: "m s = (r1, s1)" by (cases "m s")
  show "P y"
  proof (cases r1)
    case (Inl e)
    with b ms show ?thesis by (simp add: bind_def)
  next
    case (Inr x)
    with b ms have "f x s1 = (Inr y, s')" by (simp add: bind_def)
    from yieldsD [OF f this] show ?thesis .
  qed
qed

lemma analyze_steps_url:
  "yields (analyze_steps env b (Some url) x y) (\<lambda>data. \<exists>rest. data = JObj ((''url'', url) # rest))"
  unfolding analyze_steps_def
  by (intro yields_bind yields_unit) (simp add: opt_field_def)

lemma analyzeSingleWebsite_url:
  assumes "analyzeSingleWebsite env b (Some url) s = (Inr data, s')"
  shows "\<exists>rest. data = JObj ((''url'', url) # rest)"
proof -
  from assms have "analyze_steps env b (Some url) (''desktop-'' @ randomUUID env (uuids s) @ ''.webp'')
      (''mobile-'' @ randomUUID env (uuids s) @ ''.webp'') (s\<lparr>uuids := Suc (uuids s)\<rparr>) = (Inr data, s')"
    by (simp add: analyzeSingleWebsite_def crypto_randomUUID_def)
  from yieldsD [OF analyze_steps_url this] show ?thesis .
qed

lemma bulk_loop_entries:
  "bulk_loop env b urls results s = (results', s') \<Longrightarrow>
   \<exists>new. results' = results @ new \<and> list_all2 entry_shape urls new"
proof (induction urls arbitrary: results s)
  case Nil
  then show ?case by simp
next
  case (Cons url urls)
  have step: "\<exists>new. results' = results @ new \<and> list_all2 entry_shape (url # urls) new"
    if run: "bulk_loop env b urls (results @ [r]) s1 = (results', s')" and r: "entry_shape url r"
    for r s1
  proof -
    from Cons.IH [OF run] obtain new where n: "results' = (results @ [r]) @ new"
      "list_all2 entry_shape urls new" by blast
    have "results' = results @ (r # new) \<and> list_all2 entry_shape (url # urls) (r # new)"
      using n r by simp
    then show ?thesis by blast
  qed
  show ?case
  proof (cases "isValidUrl env (Some url)")
    case False
    with Cons.prems have "bulk_loop env b urls
          (results @ [JObj [(''url'', url), (''success'', JBool False),
                            (''error'', JStr ''Invalid URL'')]]) s = (results', s')"
      by simp
    then show ?thesis by (rule step) (simp add: entry_shape_def)
  next
    case True
    obtain r s1 where a: "analyzeSingleWebsite env b (Some url) s = (r, s1)"
      by (cases "analyzeSingleWebsite env b (Some url) s")
    show ?thesis
    proof (cases r)
      case (Inl e)
      with Cons.prems True a have "bulk_loop env b urls
          (results @ [JObj [(''url'', url), (''success'', JBool False),
                                    (''error'', JStr ''Analysis failed'')]]) s1 = (results', s')"
        by simp
      then show ?thesis by (rule step) (simp add: entry_shape_def)
    next
      case (Inr data)
      with Cons.prems True a have run: "bulk_loop env b urls
          (results @ [JObj [(''success'', JBool True), (''data'', data)]]) s1 = (results', s')"
        by simp
      from a Inr have "\<exists>rest. data = JObj ((''url'', url) # rest)"
        by (auto dest: analyzeSingleWebsite_url)
      then have "entry_shape url (JObj [(''success'', JBool True), (''data'', data)])"
        by (auto simp add: entry_shape_def)
      with run show ?thesis by (rule step)
    qed
  qed
qed

lemma entry_shape_success:
  "entry_shape url r \<Longrightarrow>
   truthy (get r ''success'') = (get r ''success'' = Some (JBool True)) \<and>
   (\<not> truthy (get r ''success'')) = (get r ''success'' = Some (JBool False))"
  by (auto simp add: entry_shape_def get_def)

lemma entries_shaped:
  "list_all2 entry_shape urls rs \<Longrightarrow> r \<in> set rs \<Longrightarrow> \<exists>url. entry_shape url r"
  by (induction urls rs rule: list_all2_induct) auto

lemma filter_cong_shape:
  assumes "list_all2 entry_shape urls rs"
  shows "filter (\<lambda>r. truthy (get r ''success'')) rs = filter (\<lambda>r. get r ''success'' = Some (JBool True)) rs \<and>
   filter (\<lambda>r. \<not> truthy (get r ''success'')) rs = filter (\<lambda>r. get r ''success'' = Some (JBool False)) rs"
proof -
  have "\<And>r. r \<in> set rs \<Longrightarrow>
      truthy (get r ''success'') = (get r ''success'' = Some (JBool True)) \<and>
      (\<not> truthy (get r ''success'')) = (get r ''success'' = Some (JBool False))"
    using entries_shaped [OF assms] entry_shape_success by blast
  then show ?thesis
    by (intro conjI filter_cong refl) blast+
qed

lemma analyze_bulk_run:
  assumes u: "get reqbody ''urls'' = Some (JArr urls)" "urls \<noteq> []"
  shows "if rejects env (calls s)
         then fst (analyze_bulk env reqbody s) = message 500 ''Bulk analysis failed''
         else \<exists>results. fst (analyze_bulk env reqbody s) =
                  \<lparr>status = 200, payload = bulk_summary urls results\<rparr> \<and>
                list_all2 entry_shape urls results"
proof -
  let ?s1 = "ensureDir ''screenshots'' s"
  have c: "calls ?s1 = calls s" by (simp add: ensureDir_frame)
  from launch_cases [of env ?s1] show ?thesis
  proof
    assume "rejects env (calls ?s1) \<and> launch env ?s1 = (Inl AutomationError, ?s1\<lparr>calls := Suc (calls ?s1)\<rparr>)"
    with u c show ?thesis by (simp add: analyze_bulk_def)
  next
    assume l: "\<not> rejects env (calls ?s1) \<and>
      launch env ?s1 = (Inr (launched ?s1),
        ?s1\<lparr>calls := Suc (calls ?s1), launched := Suc (launched ?s1),
          running := insert (launched ?s1) (running ?s1)\<rparr>)"
    let ?s2 = "?s1\<lparr>calls := Suc (calls ?s1), launched := Suc (launched ?s1),
          running := insert (launched ?s1) (running ?s1)\<rparr>"
    obtain rs s3 where a: "bulk_loop env (launched ?s1) urls [] ?s2 = (rs, s3)"
      by (cases "bulk_loop env (launched ?s1) urls [] ?s2")
    from bulk_loop_entries [OF a] have sh: "list_all2 entry_shape urls rs" by simp
    have "fst (analyze_bulk env reqbody s) = \<lparr>status = 200, payload = bulk_summary urls rs\<rparr>"
      using u l a by (simp add: analyze_bulk_def)
    with sh l c show ?thesis by auto
  qed
qed

lemma length_bulk_states: "length (bulk_states env b urls s) = length urls"
  by (induction urls arbitrary: s) simp_all

lemma bulk_loop_results:
  "fst (bulk_loop env b urls rs s) =
   rs @ map (\<lambda>(url, st). bulk_entry env b url st) (zip urls (bulk_states env b urls s))"
proof (induction urls arbitrary: rs s)
  case Nil
  then show ?case by simp
next
  case (Cons url urls)
  show ?case
  proof (cases "isValidUrl env (Some url)")
    case False
    then show ?thesis by (simp add: Cons.IH bulk_entry_def)
  next
    case True
    obtain r s1 where a: "analyzeSingleWebsite env b (Some url) s = (r, s1)"
      by (cases "analyzeSingleWebsite env b (Some url) s")
    show ?thesis
      using True a by (cases r) (simp_all add: Cons.IH bulk_entry_def)
  qed
qed

lemma bulk_loop_nth:
  assumes "i < length urls"
  shows "fst (bulk_loop env b urls [] s) ! i = bulk_entry env b (urls ! i) (bulk_states env b urls s ! i)"
  using assms by (simp add: bulk_loop_results length_bulk_states)

lemma bulk_loop_length: "length (fst (bulk_loop env b urls [] s)) = length urls"
  by (simp add: bulk_loop_results length_bulk_states)

lemma bulk_entry_truthy:
  "truthy (get (bulk_entry env b url st) ''success'') \<longleftrightarrow>
   isValidUrl env (Some url) \<and> (\<exists>data. fst (analyzeSingleWebsite env b (Some url) st) = Inr data)"
  by (auto simp add: bulk_entry_def get_def split: sum.splits)

lemma bulk_success_count:
  "length (filter (\<lambda>r. truthy (get r ''success'')) (fst (bulk_loop env b urls [] s))) =
   length (filter (\<lambda>(url, st). isValidUrl env (Some url) \<and>
              (\<exists>data. fst (analyzeSingleWebsite env b (Some url) st) = Inr data))
            (zip urls (bulk_states env b urls s)))"
proof -
  have "filter (\<lambda>r. truthy (get r ''success''))
          (map (\<lambda>(url, st). bulk_entry env b url st) (zip urls (bulk_states env b urls s))) =
        map (\<lambda>(url, st). bulk_entry env b url st)
          (filter (\<lambda>(url, st). isValidUrl env (Some url) \<and>
              (\<exists>data. fst (analyzeSingleWebsite env b (Some url) st) = Inr data))
            (zip urls (bulk_states env b urls s)))"
    unfolding filter_map
    by (rule arg_cong [where f = "map _"], rule filter_cong) (auto simp add: bulk_entry_truthy)
  then show ?thesis by (simp add: bulk_loop_results)
qed

lemma analyze_bulk_ok:
  assumes u: "get reqbody ''urls'' = Some (JArr urls)" "urls \<noteq> []"
    and l: "\<not> rejects env (calls s)"
  shows "fst (analyze_bulk env reqbody s) =
     \<lparr>status = 200,
      payload = bulk_summary urls
        (fst (bulk_loop env (launched s) urls [] (snd (launch env (ensureDir ''screenshots'' s)))))\<rparr>"
proof -
  let ?s1 = "ensureDir ''screenshots'' s"
  have c: "calls ?s1 = calls s" "launched ?s1 = launched s" by (simp_all add: ensureDir_frame)
  from launch_cases [of env ?s1] l c
  have la: "launch env ?s1 = (Inr (launched s),
        ?s1\<lparr>calls := Suc (calls ?s1), launched := Suc (launched ?s1),
          running := insert (launched ?s1) (running ?s1)\<rparr>)"
    by auto
  show ?thesis
    using u la by (simp add: analyze_bulk_def case_prod_unfold Let_def)
qed

text \<open>
  C5. For a non-empty list of URLs the bulk response, sent when the launch returns, has
  \<open>total = success + failed = length results\<close>, with \<open>total\<close> the number of URLs. The
  \<open>i\<close>-th entry of \<open>results\<close> is the entry of the \<open>i\<close>-th URL: the \<open>Invalid URL\<close> entry when
  the validator rejects that URL, the \<open>Analysis failed\<close> entry when its analysis throws, a
  success entry when it returns; each URL is handled in the state its predecessors left,
  so that the loop goes on after an error, and \<open>success\<close> counts the analysed URLs. (When the
  launch itself rejects there is no summary: the response is the 500 of the outer
  \<^verbatim>\<open>catch\<close>.)
\<close>

theorem bulk_counts:
  assumes u: "get reqbody ''urls'' = Some (JArr urls)" "urls \<noteq> []"
  shows "if rejects env (calls s)
         then fst (analyze_bulk env reqbody s) = message 500 ''Bulk analysis failed''
         else \<exists>succeeded failed results states.
                fst (analyze_bulk env reqbody s) =
                  \<lparr>status = 200,
                   payload = JObj [(''total'', JNum (int (length urls))),
                                   (''success'', JNum (int succeeded)),
                                   (''failed'', JNum (int failed)),
                                   (''results'', JArr results)]\<rparr> \<and>
                length urls = succeeded + failed \<and>
                succeeded + failed = length results \<and>
                succeeded = length (filter (\<lambda>r. get r ''success'' = Some (JBool True)) results) \<and>
                failed = length (filter (\<lambda>r. get r ''success'' = Some (JBool False)) results) \<and>
                list_all2 entry_shape urls results \<and>
                states = bulk_states env (launched s) urls
                           (snd (launch env (ensureDir ''screenshots'' s))) \<and>
                succeeded =
                  length (filter (\<lambda>(url, st). isValidUrl env (Some url) \<and>
                            (\<exists>data. fst (analyzeSingleWebsite env (launched s) (Some url) st) =
                               Inr data))
                          (zip urls states)) \<and>
                (\<forall>i < length urls.
                   (\<not> isValidUrl env (Some (urls ! i)) \<longrightarrow>
                      results ! i = JObj [(''url'', urls ! i), (''success'', JBool False),
                                          (''error'', JStr ''Invalid URL'')]) \<and>
                   (isValidUrl env (Some (urls ! i)) \<longrightarrow>
                      (\<forall>e. fst (analyzeSingleWebsite env (launched s) (Some (urls ! i))
                                  (states ! i)) = Inl e \<longrightarrow>
                         results ! i = JObj [(''url'', urls ! i), (''success'', JBool False),
                                             (''error'', JStr ''Analysis failed'')]) \<and>
                      (\<forall>data. fst (analyzeSingleWebsite env (launched s) (Some (urls ! i))
                                  (states ! i)) = Inr data \<longrightarrow>
                         results ! i = JObj [(''success'', JBool True), (''data'', data)])))"
proof (cases "rejects env (calls s)")
  case True
  with analyze_bulk_run [OF u, of env s] show ?thesis by simp
next
  case False
  let ?s2 = "snd (launch env (ensureDir ''screenshots'' s))"
  let ?b = "launched s"
  let ?results = "fst (bulk_loop env ?b urls [] ?s2)"
  let ?states = "bulk_states env ?b urls ?s2"
  let ?ok = "filter (\<lambda>r. get r ''success'' = Some (JBool True)) ?results"
  let ?ko = "filter (\<lambda>r. get r ''success'' = Some (JBool False)) ?results"
  have resp: "fst (analyze_bulk env reqbody s) =
      \<lparr>status = 200, payload = bulk_summary urls ?results\<rparr>"
    by (rule analyze_bulk_ok [OF u False])
  obtain rs s3 where run: "bulk_loop env ?b urls [] ?s2 = (rs, s3)"
    by (cases "bulk_loop env ?b urls [] ?s2")
  from bulk_loop_entries [OF run] run have sh: "list_all2 entry_shape urls ?results" by simp
  note fc = filter_cong_shape [OF sh]
  have len: "length ?results = length urls" by (rule bulk_loop_length)
  have "length (filter (\<lambda>r. truthy (get r ''success'')) ?results) +
        length (filter (\<lambda>r. \<not> truthy (get r ''success'')) ?results) = length ?results"
    by (rule sum_length_filter_compl)
  then have sum: "length ?ok + length ?ko = length ?results" using fc by simp
  have cnt: "length ?ok =
      length (filter (\<lambda>(url, st). isValidUrl env (Some url) \<and>
                (\<exists>data. fst (analyzeSingleWebsite env ?b (Some url) st) = Inr data))
              (zip urls ?states))"
    using bulk_success_count [of env ?b urls ?s2] fc by simp
  have payload: "fst (analyze_bulk env reqbody s) =
                  \<lparr>status = 200,
                   payload = JObj [(''total'', JNum (int (length urls))),
                                   (''success'', JNum (int (length ?ok))),
                                   (''failed'', JNum (int (length ?ko))),
                                   (''results'', JArr ?results)]\<rparr>"
    using resp fc by (simp add: bulk_summary_def)
  have each: "\<forall>i < length urls.
                   (\<not> isValidUrl env (Some (urls ! i)) \<longrightarrow>
                      ?results ! i = JObj [(''url'', urls ! i), (''success'', JBool False),
                                          (''error'', JStr ''Invalid URL'')]) \<and>
                   (isValidUrl env (Some (urls ! i)) \<longrightarrow>
                      (\<forall>e. fst (analyzeSingleWebsite env ?b (Some (urls ! i))
                                  (?states ! i)) = Inl e \<longrightarrow>
                         ?results ! i = JObj [(''url'', urls ! i), (''success'', JBool False),
                                             (''error'', JStr ''Analysis failed'')]) \<and>
                      (\<forall>data. fst (analyzeSingleWebsite env ?b (Some (urls ! i))
                                  (?states ! i)) = Inr data \<longrightarrow>
                         ?results ! i = JObj [(''success'', JBool True), (''data'', data)]))"
    by (simp add: bulk_loop_nth bulk_entry_def)
  have "\<exists>succeeded failed results states.
                fst (analyze_bulk env reqbody s) =
                  \<lparr>status = 200,
                   payload = JObj [(''total'', JNum (int (length urls))),
                                   (''success'', JNum (int succeeded)),
                                   (''failed'', JNum (int failed)),
                                   (''results'', JArr results)]\<rparr> \<and>
                length urls = succeeded + failed \<and>
                succeeded + failed = length results \<and>
                succeeded = length (filter (\<lambda>r. get r ''success'' = Some (JBool True)) results) \<and>
                failed = length (filter (\<lambda>r. get r ''success'' = Some (JBool False)) results) \<and>
                list_all2 entry_shape urls results \<and>
                states = bulk_states env (launched s) urls
                           (snd (launch env (ensureDir ''screenshots'' s))) \<and>
                succeeded =
                  length (filter (\<lambda>(url, st). isValidUrl env (Some url) \<and>
                            (\<exists>data. fst (analyzeSingleWebsite env (launched s) (Some url) st) =
                               Inr data))
                          (zip urls states)) \<and>
                (\<forall>i < length urls.
                   (\<not> isValidUrl env (Some (urls ! i)) \<longrightarrow>
                      results ! i = JObj [(''url'', urls ! i), (''success'', JBool False),
                                          (''error'', JStr ''Invalid URL'')]) \<and>
                   (isValidUrl env (Some (urls ! i)) \<longrightarrow>
                      (\<forall>e. fst (analyzeSingleWebsite env (launched s) (Some (urls ! i))
                                  (states ! i)) = Inl e \<longrightarrow>
                         results ! i = JObj [(''url'', urls ! i), (''success'', JBool False),
                                             (''error'', JStr ''Analysis failed'')]) \<and>
                      (\<forall>data. fst (analyzeSingleWebsite env (launched s) (Some (urls ! i))
                                  (states ! i)) = Inr data \<longrightarrow>
                         results ! i = JObj [(''success'', JBool True), (''data'', data)])))"
    apply (rule exI [of _ "length ?ok"])
    apply (rule exI [of _ "length ?ko"])
    apply (rule exI [of _ ?results])
    apply (rule exI [of _ ?states])
    apply (intro conjI)
            apply (rule payload)
           apply (use sum len in simp)
          apply (use sum in simp)
         apply (rule refl)
        apply (rule refl)
       apply (rule sh)
      apply (rule refl)
     apply (rule cnt)
    apply (rule each)
    done
  with False show ?thesis by simp
qed

lemmas run_defs = analyzeSingleWebsite_def analyze_steps_def
  io_defs sample_env_def flaky_env_def start_def sample_dom_def get_def message_def Let_def
  extractWebsiteIntelligence_def extractColors_def extractFonts_def opt_field_def strings_def
  intelligence_page_def page_text_def intelligenceOf_def scoreRules_def sortByScore_def
  CATEGORY_RULES_def keyword_score_def startsWith_def toLowerCase_def toLowerChar_def
  set_add_def extractColors_page_def collectColors_def colorToHex_def match_digits_def
  isDigit_def hex2_def Number_def toString16.simps padStart_def fonts_page_def str_trim_def
  strip_quotes_def isSpace_def

lemma bulk_sample_states:
  "bulk_states flaky_env (launched start) bulk_urls
     (snd (launch flaky_env (ensureDir ''screenshots'' start))) =
   [\<lparr>calls = 1, uuids = 0, launched = 1, running = {0}, dirs = {''screenshots''}, files = [],
      submissions = []\<rparr>,
    \<lparr>calls = 1, uuids = 0, launched = 1, running = {0}, dirs = {''screenshots''}, files = [],
      submissions = []\<rparr>,
    \<lparr>calls = 4, uuids = 1, launched = 1, running = {0}, dirs = {''screenshots''}, files = [],
      submissions = []\<rparr>]"
  by (simp add: bulk_urls_def run_defs)

lemma bulk_sample_failed:
  "fst (analyzeSingleWebsite flaky_env 0 (Some (JStr ''https://down.example''))
     \<lparr>calls = 1, uuids = 0, launched = 1, running = {0}, dirs = {''screenshots''}, files = [],
      submissions = []\<rparr>) = Inl AutomationError"
  by (simp add: run_defs)

lemma bulk_sample_analysed:
  "fst (analyzeSingleWebsite flaky_env 0 (Some (JStr ''https://example.com''))
     \<lparr>calls = 4, uuids = 1, launched = 1, running = {0}, dirs = {''screenshots''}, files = [],
      submissions = []\<rparr>) =
   Inr (JObj
          [(''url'', JStr ''https://example.com''),
           (''websiteName'', JStr ''Shop''),
           (''websiteType'', JStr ''E-commerce''),
           (''categories'', JArr [JStr ''E-commerce'']),
           (''tags'', JArr [JStr ''shopping'', JStr ''store'', JStr ''products'']),
           (''relatedPhrases'', JArr [JStr ''websites similar to e-commerce platforms'']),
           (''colors'', JArr [JStr ''#000000'', JStr ''#00000000'']),
           (''fonts'', JArr [JStr ''arial'']),
           (''desktopScreenshot'', JStr ''desktop-id.webp''),
           (''mobileScreenshot'', JStr ''mobile-id.webp'')])"
  by (simp add: run_defs)

theorem bulk_counts_witness:
  "get bulk_request ''urls'' = Some (JArr bulk_urls) \<and>
   bulk_urls \<noteq> [] \<and>
   \<not> rejects flaky_env (calls start) \<and>
   \<not> isValidUrl flaky_env (Some (bulk_urls ! 0)) \<and>
   isValidUrl flaky_env (Some (bulk_urls ! 1)) \<and>
   fst (analyzeSingleWebsite flaky_env (launched start) (Some (bulk_urls ! 1))
          (bulk_states flaky_env (launched start) bulk_urls
             (snd (launch flaky_env (ensureDir ''screenshots'' start))) ! 1)) =
     Inl AutomationError \<and>
   (\<exists>succeeded failed results.
      fst (analyze_bulk flaky_env bulk_request start) =
        \<lparr>status = 200,
         payload = JObj [(''total'', JNum 3),
                         (''success'', JNum (int succeeded)),
                         (''failed'', JNum (int failed)),
                         (''results'', JArr results)]\<rparr> \<and>
      3 = succeeded + failed \<and>
      succeeded + failed = length results \<and>
      results ! 0 = JObj [(''url'', JStr ''not a url''), (''success'', JBool False),
                          (''error'', JStr ''Invalid URL'')] \<and>
      results ! 1 = JObj [(''url'', JStr ''https://down.example''), (''success'', JBool False),
                          (''error'', JStr ''Analysis failed'')])"
proof -
  have h1: "get bulk_request ''urls'' = Some (JArr bulk_urls)"
    by (simp add: bulk_request_def get_def)
  have h2: "bulk_urls \<noteq> []" by (simp add: bulk_urls_def)
  have h3: "\<not> rejects flaky_env (calls start)"
    by (simp add: flaky_env_def sample_env_def start_def)
  have v0: "\<not> isValidUrl flaky_env (Some (bulk_urls ! 0))"
    by (simp add: bulk_urls_def isValidUrl_def new_URL_def flaky_env_def sample_env_def
        startsWith_def)
  have v1: "isValidUrl flaky_env (Some (bulk_urls ! 1))"
    by (simp add: bulk_urls_def isValidUrl_def new_URL_def flaky_env_def sample_env_def
        startsWith_def)
  have a1: "fst (analyzeSingleWebsite flaky_env (launched start) (Some (bulk_urls ! 1))
          (bulk_states flaky_env (launched start) bulk_urls
             (snd (launch flaky_env (ensureDir ''screenshots'' start))) ! 1)) =
     Inl AutomationError"
    unfolding bulk_sample_states using bulk_sample_failed
    by (simp add: bulk_urls_def start_def)
  have n: "length bulk_urls = 3" "bulk_urls ! 0 = JStr ''not a url''"
    "bulk_urls ! 1 = JStr ''https://down.example''"
    by (simp_all add: bulk_urls_def)
  note t = bulk_counts [OF h1 h2, of flaky_env start, unfolded if_not_P [OF h3]]
  from t obtain succeeded failed results states where
    r: "fst (analyze_bulk flaky_env bulk_request start) =
          \<lparr>status = 200,
           payload = JObj [(''total'', JNum (int (length bulk_urls))),
                           (''success'', JNum (int succeeded)),
                           (''failed'', JNum (int failed)),
                           (''results'', JArr results)]\<rparr>"
       "length bulk_urls = succeeded + failed"
       "succeeded + failed = length results"
       "states = bulk_states flaky_env (launched start) bulk_urls
                   (snd (launch flaky_env (ensureDir ''screenshots'' start)))"
    and each: "\<forall>i < length bulk_urls.
       (\<not> isValidUrl flaky_env (Some (bulk_urls ! i)) \<longrightarrow>
          results ! i = JObj [(''url'', bulk_urls ! i), (''success'', JBool False),
                              (''error'', JStr ''Invalid URL'')]) \<and>
       (isValidUrl flaky_env (Some (bulk_urls ! i)) \<longrightarrow>
          (\<forall>e. fst (analyzeSingleWebsite flaky_env (launched start) (Some (bulk_urls ! i))
                      (states ! i)) = Inl e \<longrightarrow>
             results ! i = JObj [(''url'', bulk_urls ! i), (''success'', JBool False),
                                 (''error'', JStr ''Analysis failed'')]) \<and>
          (\<forall>data. fst (analyzeSingleWebsite flaky_env (launched start) (Some (bulk_urls ! i))
                      (states ! i)) = Inr data \<longrightarrow>
             results ! i = JObj [(''success'', JBool True), (''data'', data)]))"
    by blast
  from each v0 n have e0: "results ! 0 = JObj [(''url'', JStr ''not a url''),
      (''success'', JBool False), (''error'', JStr ''Invalid URL'')]"
    by (metis zero_less_numeral)
  have "1 < length bulk_urls" using n by simp
  with each v1 a1 r(4) n have e1: "results ! 1 = JObj [(''url'', JStr ''https://down.example''),
      (''success'', JBool False), (''error'', JStr ''Analysis failed'')]"
    by metis
  have "\<exists>succeeded failed results.
      fst (analyze_bulk flaky_env bulk_request start) =
        \<lparr>status = 200,
         payload = JObj [(''total'', JNum 3),
                         (''success'', JNum (int succeeded)),
                         (''failed'', JNum (int failed)),
                         (''results'', JArr results)]\<rparr> \<and>
      3 = succeeded + failed \<and>
      succeeded + failed = length results \<and>
      results ! 0 = JObj [(''url'', JStr ''not a url''), (''success'', JBool False),
                          (''error'', JStr ''Invalid URL'')] \<and>
      results ! 1 = JObj [(''url'', JStr ''https://down.example''), (''success'', JBool False),
                          (''error'', JStr ''Analysis failed'')]"
    apply (rule exI [of _ succeeded])
    apply (rule exI [of _ failed])
    apply (rule exI [of _ results])
    using r(1,2,3) n(1) e0 e1 apply simp
    done
  with h1 h2 h3 v0 v1 a1 show ?thesis by blast
qed

lemma get_JObj: "get (JObj kvs) k = map_of kvs k"
  by (simp add: get_def)

lemma analysed_url:
  assumes "fst (analyzeSingleWebsite env b (Some url) st) = Inr data"
  shows "get data ''url'' = Some url"
proof -
  from assms have "analyzeSingleWebsite env b (Some url) st =
      (Inr data, snd (analyzeSingleWebsite env b (Some url) st))"
    by (metis prod.collapse)
  from analyzeSingleWebsite_url [OF this] obtain rest where "data = JObj ((''url'', url) # rest)"
    by blast
  then show ?thesis by (simp add: get_def)
qed

text \<open>
  C10. In a bulk response that carries results, the entry of a URL that the validator rejects
  or whose analysis throws is \<open>{url, success: false, error}\<close> and has no \<open>data\<close>, and the
  entry of a URL whose analysis returns is \<open>{success: true, data}\<close> and nothing else: it has
  no \<open>url\<close> and no \<open>error\<close>, the URL being the \<open>url\<close> field of \<open>data\<close>.
\<close>

theorem bulk_entries_asymmetric:
  assumes "status (fst (analyze_bulk env reqbody s)) = 200"
  shows "\<exists>urls results states.
           get reqbody ''urls'' = Some (JArr urls) \<and>
           get (payload (fst (analyze_bulk env reqbody s))) ''results'' = Some (JArr results) \<and>
           list_all2 entry_shape urls results \<and>
           states = bulk_states env (launched s) urls
                      (snd (launch env (ensureDir ''screenshots'' s))) \<and>
           (\<forall>i < length urls.
              (\<not> isValidUrl env (Some (urls ! i)) \<longrightarrow>
                 results ! i = JObj [(''url'', urls ! i), (''success'', JBool False),
                                     (''error'', JStr ''Invalid URL'')] \<and>
                 get (results ! i) ''data'' = None) \<and>
              (isValidUrl env (Some (urls ! i)) \<longrightarrow>
                 (\<forall>e. fst (analyzeSingleWebsite env (launched s) (Some (urls ! i))
                             (states ! i)) = Inl e \<longrightarrow>
                    results ! i = JObj [(''url'', urls ! i), (''success'', JBool False),
                                        (''error'', JStr ''Analysis failed'')] \<and>
                    get (results ! i) ''data'' = None) \<and>
                 (\<forall>data. fst (analyzeSingleWebsite env (launched s) (Some (urls ! i))
                             (states ! i)) = Inr data \<longrightarrow>
                    results ! i = JObj [(''success'', JBool True), (''data'', data)] \<and>
                    get (results ! i) ''url'' = None \<and>
                    get (results ! i) ''error'' = None \<and>
                    get data ''url'' = Some (urls ! i))))"
proof -
  have "\<exists>urls. get reqbody ''urls'' = Some (JArr urls) \<and> urls \<noteq> []"
  proof (rule ccontr)
    assume "\<not> (\<exists>urls. get reqbody ''urls'' = Some (JArr urls) \<and> urls \<noteq> [])"
    then have "fst (analyze_bulk env reqbody s) = message 400 ''URLs array required''"
      by (auto simp add: analyze_bulk_def split: option.splits json.splits)
    with assms show False by (simp add: message_def)
  qed
  then obtain urls where u: "get reqbody ''urls'' = Some (JArr urls)" "urls \<noteq> []" by blast
  have nr: "\<not> rejects env (calls s)"
  proof
    assume "rejects env (calls s)"
    with analyze_bulk_run [OF u, of env s]
    have "fst (analyze_bulk env reqbody s) = message 500 ''Bulk analysis failed''" by simp
    with assms show False by (simp add: message_def)
  qed
  let ?s2 = "snd (launch env (ensureDir ''screenshots'' s))"
  let ?b = "launched s"
  let ?results = "fst (bulk_loop env ?b urls [] ?s2)"
  let ?states = "bulk_states env ?b urls ?s2"
  have resp: "fst (analyze_bulk env reqbody s) =
      \<lparr>status = 200, payload = bulk_summary urls ?results\<rparr>"
    by (rule analyze_bulk_ok [OF u nr])
  then have pl: "get (payload (fst (analyze_bulk env reqbody s))) ''results'' = Some (JArr ?results)"
    by (simp add: bulk_summary_def get_def)
  obtain rs s3 where run: "bulk_loop env ?b urls [] ?s2 = (rs, s3)"
    by (cases "bulk_loop env ?b urls [] ?s2")
  from bulk_loop_entries [OF run] run have sh: "list_all2 entry_shape urls ?results" by simp
  have each: "\<forall>i < length urls.
              (\<not> isValidUrl env (Some (urls ! i)) \<longrightarrow>
                 ?results ! i = JObj [(''url'', urls ! i), (''success'', JBool False),
                                     (''error'', JStr ''Invalid URL'')] \<and>
                 get (?results ! i) ''data'' = None) \<and>
              (isValidUrl env (Some (urls ! i)) \<longrightarrow>
                 (\<forall>e. fst (analyzeSingleWebsite env ?b (Some (urls ! i))
                             (?states ! i)) = Inl e \<longrightarrow>
                    ?results ! i = JObj [(''url'', urls ! i), (''success'', JBool False),
                                        (''error'', JStr ''Analysis failed'')] \<and>
                    get (?results ! i) ''data'' = None) \<and>
                 (\<forall>data. fst (analyzeSingleWebsite env ?b (Some (urls ! i))
                             (?states ! i)) = Inr data \<longrightarrow>
                    ?results ! i = JObj [(''success'', JBool True), (''data'', data)] \<and>
                    get (?results ! i) ''url'' = None \<and>
                    get (?results ! i) ''error'' = None \<and>
                    get data ''url'' = Some (urls ! i)))"
    by (simp add: bulk_loop_nth bulk_entry_def get_JObj analysed_url)
  show ?thesis
    apply (rule exI [of _ urls])
    apply (rule exI [of _ ?results])
    apply (rule exI [of _ ?states])
    apply (intro conjI)
        apply (rule u(1))
       apply (rule pl)
      apply (rule sh)
     apply (rule refl)
    apply (rule each)
    done
qed

theorem bulk_entries_asymmetric_witness:
  "status (fst (analyze_bulk flaky_env bulk_request start)) = 200 \<and>
   get bulk_request ''urls'' = Some (JArr bulk_urls) \<and>
   \<not> isValidUrl flaky_env (Some (bulk_urls ! 0)) \<and>
   isValidUrl flaky_env (Some (bulk_urls ! 1)) \<and>
   fst (analyzeSingleWebsite flaky_env (launched start) (Some (bulk_urls ! 1))
          (bulk_states flaky_env (launched start) bulk_urls
             (snd (launch flaky_env (ensureDir ''screenshots'' start))) ! 1)) =
     Inl AutomationError \<and>
   isValidUrl flaky_env (Some (bulk_urls ! 2)) \<and>
   (\<exists>data. fst (analyzeSingleWebsite flaky_env (launched start) (Some (bulk_urls ! 2))
          (bulk_states flaky_env (launched start) bulk_urls
             (snd (launch flaky_env (ensureDir ''screenshots'' start))) ! 2)) = Inr data) \<and>
   (\<exists>results data.
      get (payload (fst (analyze_bulk flaky_env bulk_request start))) ''results'' =
        Some (JArr results) \<and>
      results ! 0 = JObj [(''url'', JStr ''not a url''), (''success'', JBool False),
                          (''error'', JStr ''Invalid URL'')] \<and>
      results ! 1 = JObj [(''url'', JStr ''https://down.example''), (''success'', JBool False),
                          (''error'', JStr ''Analysis failed'')] \<and>
      results ! 2 = JObj [(''success'', JBool True), (''data'', data)] \<and>
      get (results ! 2) ''url'' = None \<and>
      get data ''url'' = Some (JStr ''https://example.com''))"
proof -
  have h1: "get bulk_request ''urls'' = Some (JArr bulk_urls)"
    by (simp add: bulk_request_def get_def)
  have h2: "bulk_urls \<noteq> []" by (simp add: bulk_urls_def)
  have h3: "\<not> rejects flaky_env (calls start)"
    by (simp add: flaky_env_def sample_env_def start_def)
  have st: "status (fst (analyze_bulk flaky_env bulk_request start)) = 200"
    by (simp add: analyze_bulk_ok [OF h1 h2 h3])
  have v0: "\<not> isValidUrl flaky_env (Some (bulk_urls ! 0))"
    by (simp add: bulk_urls_def isValidUrl_def new_URL_def flaky_env_def sample_env_def
        startsWith_def)
  have v1: "isValidUrl flaky_env (Some (bulk_urls ! 1))"
    by (simp add: bulk_urls_def isValidUrl_def new_URL_def flaky_env_def sample_env_def
        startsWith_def)
  have v2: "isValidUrl flaky_env (Some (bulk_urls ! 2))"
    by (simp add: bulk_urls_def isValidUrl_def new_URL_def flaky_env_def sample_env_def
        startsWith_def)
  have a1: "fst (analyzeSingleWebsite flaky_env (launched start) (Some (bulk_urls ! 1))
          (bulk_states flaky_env (launched start) bulk_urls
             (snd (launch flaky_env (ensureDir ''screenshots'' start))) ! 1)) =
     Inl AutomationError"
    unfolding bulk_sample_states using bulk_sample_failed
    by (simp add: bulk_urls_def start_def)
  have a2: "\<exists>data. fst (analyzeSingleWebsite flaky_env (launched start) (Some (bulk_urls ! 2))
          (bulk_states flaky_env (launched start) bulk_urls
             (snd (launch flaky_env (ensureDir ''screenshots'' start))) ! 2)) = Inr data"
    unfolding bulk_sample_states using bulk_sample_analysed
    by (simp add: bulk_urls_def start_def)
  then obtain data where d: "fst (analyzeSingleWebsite flaky_env (launched start)
          (Some (bulk_urls ! 2))
          (bulk_states flaky_env (launched start) bulk_urls
             (snd (launch flaky_env (ensureDir ''screenshots'' start))) ! 2)) = Inr data"
    by blast
  have n: "length bulk_urls = 3" "bulk_urls ! 0 = JStr ''not a url''"
    "bulk_urls ! 1 = JStr ''https://down.example''" "bulk_urls ! 2 = JStr ''https://example.com''"
    by (simp_all add: bulk_urls_def)
  from bulk_entries_asymmetric [OF st] obtain urls results states where
    r: "get bulk_request ''urls'' = Some (JArr urls)"
       "get (payload (fst (analyze_bulk flaky_env bulk_request start))) ''results'' =
          Some (JArr results)"
       "states = bulk_states flaky_env (launched start) urls
                   (snd (launch flaky_env (ensureDir ''screenshots'' start)))"
    and each: "\<forall>i < length urls.
              (\<not> isValidUrl flaky_env (Some (urls ! i)) \<longrightarrow>
                 results ! i = JObj [(''url'', urls ! i), (''success'', JBool False),
                                     (''error'', JStr ''Invalid URL'')] \<and>
                 get (results ! i) ''data'' = None) \<and>
              (isValidUrl flaky_env (Some (urls ! i)) \<longrightarrow>
                 (\<forall>e. fst (analyzeSingleWebsite flaky_env (launched start) (Some (urls ! i))
                             (states ! i)) = Inl e \<longrightarrow>
                    results ! i = JObj [(''url'', urls ! i), (''success'', JBool False),
                                        (''error'', JStr ''Analysis failed'')] \<and>
                    get (results ! i) ''data'' = None) \<and>
                 (\<forall>data. fst (analyzeSingleWebsite flaky_env (launched start) (Some (urls ! i))
                             (states ! i)) = Inr data \<longrightarrow>
                    results ! i = JObj [(''success'', JBool True), (''data'', data)] \<and>
                    get (results ! i) ''url'' = None \<and>
                    get (results ! i) ''error'' = None \<and>
                    get data ''url'' = Some (urls ! i)))"
    by blast
  from r(1) h1 have u: "urls = bulk_urls" by simp
  have i0: "0 < length urls" and i1: "1 < length urls" and i2: "2 < length urls"
    using u n(1) by simp_all
  from each [rule_format, OF i0] v0 u n have e0: "results ! 0 = JObj [(''url'', JStr ''not a url''),
      (''success'', JBool False), (''error'', JStr ''Invalid URL'')]"
    by simp
  from each [rule_format, OF i1] v1 a1 u r(3) n
  have e1: "results ! 1 = JObj [(''url'', JStr ''https://down.example''),
      (''success'', JBool False), (''error'', JStr ''Analysis failed'')]"
    by simp
  from each [rule_format, OF i2] v2 d u r(3) n
  have e2: "results ! 2 = JObj [(''success'', JBool True), (''data'', data)] \<and>
      get (results ! 2) ''url'' = None \<and> get data ''url'' = Some (JStr ''https://example.com'')"
    by (simp add: get_JObj)
  have "\<exists>results data.
      get (payload (fst (analyze_bulk flaky_env bulk_request start))) ''results'' =
        Some (JArr results) \<and>
      results ! 0 = JObj [(''url'', JStr ''not a url''), (''success'', JBool False),
                          (''error'', JStr ''Invalid URL'')] \<and>
      results ! 1 = JObj [(''url'', JStr ''https://down.example''), (''success'', JBool False),
                          (''error'', JStr ''Analysis failed'')] \<and>
      results ! 2 = JObj [(''success'', JBool True), (''data'', data)] \<and>
      get (results ! 2) ''url'' = None \<and>
      get data ''url'' = Some (JStr ''https://example.com'')"
    apply (rule exI [of _ results])
    apply (rule exI [of _ data])
    using r(2) e0 e1 e2 apply (simp add: get_JObj)
    done
  with st h1 v0 v1 a1 v2 a2 show ?thesis by blast
qed

section \<open>Request validation\<close>

text \<open>
  C7. When \<^verbatim>\<open>/analyze\<close> gets a body that omits \<open>url\<close>, or whose \<open>url\<close> the validator
  rejects, it answers 400 and the state is untouched: no automation call, no browser
  launched, no directory or file created. In index.js an omitted \<open>url\<close> reaches the
  validator as \<^verbatim>\<open>undefined\<close> and is rejected there; part_000 answers 400 for an omitted
  (or otherwise falsy) \<open>url\<close> before it asks the validator.
\<close>

theorem invalid_url_no_browser_work:
  "(get reqbody ''url'' = None \<or> \<not> isValidUrl env (get reqbody ''url'') \<longrightarrow>
      status (fst (analyze env reqbody s)) = 400 \<and> snd (analyze env reqbody s) = s) \<and>
   (get reqbody ''url'' = None \<or> \<not> isValidUrl env (get reqbody ''url'') \<longrightarrow>
      status (fst (analyze_000 env reqbody s)) = 400 \<and> snd (analyze_000 env reqbody s) = s)"
  by (auto simp add: analyze_def analyze_000_def message_def error_000_def isValidUrl_def
      new_URL_def)

theorem invalid_url_no_browser_work_witness:
  "get (JObj []) ''url'' = None \<and>
   \<not> isValidUrl sample_env (get (JObj []) ''url'') \<and>
   \<not> isValidUrl sample_env (get (JObj [(''url'', JStr ''not a url'')]) ''url'') \<and>
   status (fst (analyze sample_env (JObj []) start)) = 400 \<and>
   snd (analyze sample_env (JObj []) start) = start \<and>
   status (fst (analyze sample_env (JObj [(''url'', JStr ''not a url'')]) start)) = 400 \<and>
   launched (snd (analyze sample_env (JObj [(''url'', JStr ''not a url'')]) start)) = 0 \<and>
   files (snd (analyze sample_env (JObj [(''url'', JStr ''not a url'')]) start)) = [] \<and>
   status (fst (analyze_000 sample_env (JObj []) start)) = 400 \<and>
   snd (analyze_000 sample_env (JObj []) start) = start"
proof -
  have h0: "get (JObj []) ''url'' = None" by (simp add: get_def)
  have h1: "\<not> isValidUrl sample_env (get (JObj []) ''url'')"
    by (simp add: get_def isValidUrl_def new_URL_def sample_env_def)
  have h2: "\<not> isValidUrl sample_env (get (JObj [(''url'', JStr ''not a url'')]) ''url'')"
    by (simp add: get_def isValidUrl_def new_URL_def sample_env_def startsWith_def)
  from invalid_url_no_browser_work [where env = sample_env and reqbody = "JObj []" and s = start]
    h0 h1
  have 1: "status (fst (analyze sample_env (JObj []) start)) = 400 \<and>
           snd (analyze sample_env (JObj []) start) = start"
    and 3: "status (fst (analyze_000 sample_env (JObj []) start)) = 400 \<and>
           snd (analyze_000 sample_env (JObj []) start) = start"
    by blast+
  from invalid_url_no_browser_work [where env = sample_env and
      reqbody = "JObj [(''url'', JStr ''not a url'')]" and s = start] h2
  have 2: "status (fst (analyze sample_env (JObj [(''url'', JStr ''not a url'')]) start)) = 400 \<and>
           snd (analyze sample_env (JObj [(''url'', JStr ''not a url'')]) start) = start"
    by blast
  have s0: "launched start = 0" "files start = []" by (simp_all add: start_def)
  from h0 h1 h2 1 2 3 s0 show ?thesis by simp
qed

text \<open>
  C8. The claim: \<^verbatim>\<open>/submit\<close> answers 400 exactly when \<open>url\<close> or \<open>websiteName\<close> is absent.
  The handler tests \<^verbatim>\<open>!data.url || !data.websiteName\<close>, so a field that is present but
  falsy is refused too: here \<open>url\<close> is the empty string.
\<close>

theorem submit_present_but_empty_counterexample:
  "get (JObj [(''url'', JStr []), (''websiteName'', JStr ''Example'')]) ''url'' \<noteq> None \<and>
   get (JObj [(''url'', JStr []), (''websiteName'', JStr ''Example'')]) ''websiteName'' \<noteq> None \<and>
   status (fst (submit sample_env
     (JObj [(''url'', JStr []), (''websiteName'', JStr ''Example'')]) start)) = 400 \<and>
   submissions (snd (submit sample_env
     (JObj [(''url'', JStr []), (''websiteName'', JStr ''Example'')]) start)) = submissions start"
  by (simp add: submit_def get_def message_def)

text \<open>
  C8, amended. \<^verbatim>\<open>/submit\<close> answers 400 exactly when \<open>url\<close> or \<open>websiteName\<close> is absent or
  falsy (the empty string, \<open>null\<close>, \<open>0\<close>, \<open>false\<close>), and then the log is unchanged; otherwise
  it answers 200 and has appended the record, followed by a comma and a newline, to the log.
  Nothing else of the body is looked at.
\<close>

theorem submit_requires_truthy_fields:
  "(status (fst (submit env data s)) = 400 \<longleftrightarrow>
      \<not> truthy (get data ''url'') \<or> \<not> truthy (get data ''websiteName'')) \<and>
   (status (fst (submit env data s)) = 200 \<longleftrightarrow>
      truthy (get data ''url'') \<and> truthy (get data ''websiteName'')) \<and>
   (get data ''url'' = None \<or> get data ''websiteName'' = None \<longrightarrow>
      status (fst (submit env data s)) = 400) \<and>
   submissions (snd (submit env data s)) =
     (if truthy (get data ''url'') \<and> truthy (get data ''websiteName'')
      then submissions s @ stringify env data @ [CHR '','', CHR 0x0A]
      else submissions s)"
  by (auto simp add: submit_def message_def)

theorem submit_requires_truthy_fields_witness:
  "truthy (get (JObj [(''url'', JStr ''https://example.com''), (''websiteName'', JStr ''Example'')])
     ''url'') \<and>
   truthy (get (JObj [(''url'', JStr ''https://example.com''), (''websiteName'', JStr ''Example'')])
     ''websiteName'') \<and>
   status (fst (submit sample_env
     (JObj [(''url'', JStr ''https://example.com''), (''websiteName'', JStr ''Example'')]) start)) = 200 \<and>
   submissions (snd (submit sample_env
     (JObj [(''url'', JStr ''https://example.com''), (''websiteName'', JStr ''Example'')]) start)) =
     [CHR ''{'', CHR ''}'', CHR '','', CHR 0x0A] \<and>
   get (JObj [(''websiteName'', JStr ''Example'')]) ''url'' = None \<and>
   status (fst (submit sample_env (JObj [(''websiteName'', JStr ''Example'')]) start)) = 400"
proof -
  let ?d = "JObj [(''url'', JStr ''https://example.com''), (''websiteName'', JStr ''Example'')]"
  have h1: "truthy (get ?d ''url'')" and h2: "truthy (get ?d ''websiteName'')"
    by (simp_all add: get_def)
  have h3: "get (JObj [(''websiteName'', JStr ''Example'')]) ''url'' = None"
    by (simp add: get_def)
  from submit_requires_truthy_fields [of sample_env ?d start] h1 h2
  have 1: "status (fst (submit sample_env ?d start)) = 200"
    and 2: "submissions (snd (submit sample_env ?d start)) =
        submissions start @ stringify sample_env ?d @ [CHR '','', CHR 0x0A]"
    by simp_all
  from submit_requires_truthy_fields [of sample_env "JObj [(''websiteName'', JStr ''Example'')]" start] h3
  have 3: "status (fst (submit sample_env (JObj [(''websiteName'', JStr ''Example'')]) start)) = 400"
    by blast
  have "submissions start @ stringify sample_env ?d @ [CHR '','', CHR 0x0A] =
        [CHR ''{'', CHR ''}'', CHR '','', CHR 0x0A]"
    by (simp add: start_def sample_env_def)
  with h1 h2 h3 1 2 3 show ?thesis by simp
qed

section \<open>Failures inside the extractors\<close>

text \<open>
  C4. The claim: every signal extractor catches a failure and returns its default. The
  extractors of index.js have no \<^verbatim>\<open>try\<close>: on a document without a body
  \<^verbatim>\<open>extractWebsiteIntelligence\<close> passes the \<open>TypeError\<close> on, and when the evaluation call
  rejects \<^verbatim>\<open>extractColors\<close> and \<^verbatim>\<open>extractFonts\<close> pass that on.
\<close>

theorem extractors_index_propagate_counterexample:
  "fst (extractWebsiteIntelligence sample_env (sample_dom\<lparr>body := None\<rparr>) start) = Inl TypeError \<and>
   fst (extractColors (sample_env\<lparr>rejects := (\<lambda>n. True)\<rparr>) sample_dom start) =
     Inl AutomationError \<and>
   fst (extractFonts (sample_env\<lparr>rejects := (\<lambda>n. True)\<rparr>) sample_dom start) =
     Inl AutomationError"
  by (simp add: extractWebsiteIntelligence_def extractColors_def extractFonts_def io_defs
      sample_env_def start_def sample_dom_def intelligence_page_def page_text_def)

lemma try_default_returns:
  "fst (try_default m dflt s) = Inr (case fst (m s) of Inl e \<Rightarrow> dflt | Inr v \<Rightarrow> v)"
  by (cases "m s") (auto simp add: try_default_def split: sum.splits)

lemma bind_call:
  "bind (call env) f s =
     (if rejects env (calls s) then (Inl AutomationError, s\<lparr>calls := Suc (calls s)\<rparr>)
      else f () (s\<lparr>calls := Suc (calls s)\<rparr>))"
  by (simp add: bind_def call_def)

lemma bind_goto:
  "bind (goto env url) f s =
     (if rejects env (calls s) then (Inl AutomationError, s\<lparr>calls := Suc (calls s)\<rparr>)
      else f (site env (calls s) url) (s\<lparr>calls := Suc (calls s)\<rparr>))"
  by (simp add: bind_def goto_def call_def)

lemma bind_page_title:
  "bind (page_title env d) f s =
     (if rejects env (calls s) then (Inl AutomationError, s\<lparr>calls := Suc (calls s)\<rparr>)
      else f (title d) (s\<lparr>calls := Suc (calls s)\<rparr>))"
  by (simp add: bind_def page_title_def call_def unit_def)

lemma bind_evaluate:
  "bind (evaluate env g d) f s =
     (if rejects env (calls s) then (Inl AutomationError, s\<lparr>calls := Suc (calls s)\<rparr>)
      else (case g d of
              Inl e \<Rightarrow> (Inl e, s\<lparr>calls := Suc (calls s)\<rparr>)
            | Inr v \<Rightarrow> f v (s\<lparr>calls := Suc (calls s)\<rparr>)))"
  by (simp add: bind_def evaluate_def call_def lift_def)

lemma bind_screenshot:
  "bind (screenshot env path) f s =
     (if rejects env (calls s) then (Inl AutomationError, s\<lparr>calls := Suc (calls s)\<rparr>)
      else f () (s\<lparr>calls := Suc (calls s), files := files s @ [path]\<rparr>))"
  by (simp add: bind_def screenshot_def call_def)

lemma evaluate_fails_iff:
  "(\<exists>e. fst (evaluate env g d s) = Inl e) \<longleftrightarrow> rejects env (calls s) \<or> (\<exists>e. g d = Inl e)"
  by (auto simp add: evaluate_def bind_def call_def lift_def)

lemma fonts_page_returns: "\<exists>fs. fonts_page d = Inr fs"
  by (simp add: fonts_page_def)

lemma analyze_steps_succeeds_iff:
  "(\<exists>data. fst (analyze_steps env b url df mf s) = Inr data) \<longleftrightarrow>
     \<not> rejects env (calls s) \<and> \<not> rejects env (Suc (calls s)) \<and>
     \<not> rejects env (Suc (Suc (calls s))) \<and> \<not> rejects env (Suc (Suc (Suc (calls s)))) \<and>
     \<not> rejects env (calls s + 4) \<and> \<not> rejects env (calls s + 5) \<and>
     \<not> rejects env (calls s + 6) \<and> \<not> rejects env (calls s + 7) \<and>
     \<not> rejects env (calls s + 8) \<and> \<not> rejects env (calls s + 9) \<and>
     \<not> rejects env (calls s + 10) \<and>
     (\<exists>i. intelligence_page (site env (calls s + 2) url) = Inr i) \<and>
     (\<exists>cs. extractColors_page (site env (calls s + 2) url) = Inr cs)"
proof -
  obtain fs where f: "fonts_page (site env (calls s + 2) url) = Inr fs"
    using fonts_page_returns by blast
  have n: "calls s + 4 = Suc (Suc (Suc (Suc (calls s))))"
    "calls s + 5 = Suc (Suc (Suc (Suc (Suc (calls s)))))"
    "calls s + 6 = Suc (Suc (Suc (Suc (Suc (Suc (calls s))))))"
    "calls s + 7 = Suc (Suc (Suc (Suc (Suc (Suc (Suc (calls s)))))))"
    "calls s + 8 = Suc (Suc (Suc (Suc (Suc (Suc (Suc (Suc (calls s))))))))"
    "calls s + 9 = Suc (Suc (Suc (Suc (Suc (Suc (Suc (Suc (Suc (calls s)))))))))"
    "calls s + 10 = Suc (Suc (Suc (Suc (Suc (Suc (Suc (Suc (Suc (Suc (calls s))))))))))"
    "calls s + 2 = Suc (Suc (calls s))"
    by simp_all
  show ?thesis
    unfolding analyze_steps_def extractWebsiteIntelligence_def extractColors_def extractFonts_def n
    using f [unfolded n]
    by (cases "intelligence_page (site env (Suc (Suc (calls s))) url)";
        cases "extractColors_page (site env (Suc (Suc (calls s))) url)")
      (simp_all add: bind_call bind_goto bind_page_title bind_evaluate bind_screenshot unit_def)
qed


lemma analyzeSingleWebsite_succeeds_iff:
  "(\<exists>data. fst (analyzeSingleWebsite env b url s) = Inr data) \<longleftrightarrow>
     \<not> rejects env (calls s) \<and> \<not> rejects env (Suc (calls s)) \<and>
     \<not> rejects env (Suc (Suc (calls s))) \<and> \<not> rejects env (Suc (Suc (Suc (calls s)))) \<and>
     \<not> rejects env (calls s + 4) \<and> \<not> rejects env (calls s + 5) \<and>
     \<not> rejects env (calls s + 6) \<and> \<not> rejects env (calls s + 7) \<and>
     \<not> rejects env (calls s + 8) \<and> \<not> rejects env (calls s + 9) \<and>
     \<not> rejects env (calls s + 10) \<and>
     (\<exists>i. intelligence_page (site env (calls s + 2) url) = Inr i) \<and>
     (\<exists>cs. extractColors_page (site env (calls s + 2) url) = Inr cs)"
proof -
  have "analyzeSingleWebsite env b url s =
      analyze_steps env b url (''desktop-'' @ randomUUID env (uuids s) @ ''.webp'')
        (''mobile-'' @ randomUUID env (uuids s) @ ''.webp'') (s\<lparr>uuids := Suc (uuids s)\<rparr>)"
    by (simp add: analyzeSingleWebsite_def crypto_randomUUID_def)
  then show ?thesis
    using analyze_steps_succeeds_iff [of env b url
        "''desktop-'' @ randomUUID env (uuids s) @ ''.webp''"
        "''mobile-'' @ randomUUID env (uuids s) @ ''.webp''" "s\<lparr>uuids := Suc (uuids s)\<rparr>"]
    by simp
qed

lemma not_Inr_Inl: "\<not> (\<exists>x. r = Inr x) \<Longrightarrow> \<exists>e. r = Inl e"
  by (cases r) auto

text \<open>An extractor of index.js that fails where \<^verbatim>\<open>analyzeSingleWebsite\<close> runs it makes
  the analysis fail.\<close>

lemma extractor_failure_fails_analysis:
  assumes "(\<exists>e. fst (extractWebsiteIntelligence env (site env (calls s + 2) url)
                     (s\<lparr>uuids := Suc (uuids s), calls := calls s + 4\<rparr>)) = Inl e) \<or>
           (\<exists>e. fst (extractColors env (site env (calls s + 2) url)
                     (s\<lparr>uuids := Suc (uuids s), calls := calls s + 5\<rparr>)) = Inl e) \<or>
           (\<exists>e. fst (extractFonts env (site env (calls s + 2) url)
                     (s\<lparr>uuids := Suc (uuids s), calls := calls s + 6\<rparr>)) = Inl e)"
  shows "\<exists>e. fst (analyzeSingleWebsite env b url s) = Inl e"
proof (rule not_Inr_Inl, rule notI)
  assume "\<exists>data. fst (analyzeSingleWebsite env b url s) = Inr data"
  then have ok: "\<not> rejects env (calls s + 4)" "\<not> rejects env (calls s + 5)"
    "\<not> rejects env (calls s + 6)"
    "\<exists>i. intelligence_page (site env (calls s + 2) url) = Inr i"
    "\<exists>cs. extractColors_page (site env (calls s + 2) url) = Inr cs"
    unfolding analyzeSingleWebsite_succeeds_iff by blast+
  obtain fs where "fonts_page (site env (calls s + 2) url) = Inr fs"
    using fonts_page_returns by blast
  with ok assms show False
    unfolding extractWebsiteIntelligence_def extractColors_def extractFonts_def
      evaluate_fails_iff
    by auto
qed

lemma analyze_failure_500:
  assumes v: "isValidUrl env (get reqbody ''url'')" and l: "\<not> rejects env (calls s)"
    and a: "fst (analyzeSingleWebsite env (launched s) (get reqbody ''url'')
                   (snd (launch env (ensureDir ''screenshots'' s)))) = Inl e"
  shows "fst (analyze env reqbody s) = message 500 ''Website analysis failed''"
proof -
  let ?s1 = "ensureDir ''screenshots'' s"
  have c: "calls ?s1 = calls s" "launched ?s1 = launched s" by (simp_all add: ensureDir_frame)
  from launch_cases [of env ?s1] l c
  have la: "launch env ?s1 = (Inr (launched s), snd (launch env ?s1))"
    by auto
  obtain r s3 where r: "analyzeSingleWebsite env (launched s) (get reqbody ''url'')
      (snd (launch env ?s1)) = (r, s3)"
    by (cases "analyzeSingleWebsite env (launched s) (get reqbody ''url'') (snd (launch env ?s1))")
  with a have "r = Inl e" by simp
  with v r show ?thesis
    unfolding analyze_def Let_def by (subst la) simp
qed

lemma bulk_loop_failure:
  assumes "isValidUrl env (Some url)" "fst (analyzeSingleWebsite env b (Some url) s) = Inl e"
  shows "bulk_loop env b (url # urls) results s =
         bulk_loop env b urls
           (results @ [JObj [(''url'', url), (''success'', JBool False),
                             (''error'', JStr ''Analysis failed'')]])
           (snd (analyzeSingleWebsite env b (Some url) s))"
  using assms by (cases "analyzeSingleWebsite env b (Some url) s") simp

text \<open>
  C4, amended. In part_000 every signal extractor (colours, fonts, tags, category) returns a
  value whatever happens while it extracts: what the evaluation gives, and on a failure \<open>[]\<close>,
  for the category \<open>Unknown\<close>. The extractors of index.js return what the evaluation returns,
  a failure included: a failure of one of them makes \<^verbatim>\<open>analyzeSingleWebsite\<close> fail, and
  then \<^verbatim>\<open>/analyze\<close> answers 500 and the bulk loop records the \<open>Analysis failed\<close> entry of
  the URL and goes on.
\<close>

theorem extractors_part_000_catch:
  "fst (extractCSSColors env d s) =
     Inr (case fst (evaluate env cssColors_page d s) of Inl e \<Rightarrow> [] | Inr v \<Rightarrow> v) \<and>
   fst (extractFonts_000 env d s) =
     Inr (case fst (evaluate env fonts_page_000 d s) of Inl e \<Rightarrow> [] | Inr v \<Rightarrow> v) \<and>
   fst (extractTags env d s) =
     Inr (case fst (evaluate env tags_page_000 d s) of Inl e \<Rightarrow> [] | Inr v \<Rightarrow> v) \<and>
   fst (extractCategory env d s) =
     Inr (case fst (evaluate env category_page_000 d s) of Inl e \<Rightarrow> ''Unknown'' | Inr v \<Rightarrow> v) \<and>
   (fst (evaluate env extractColors_page d s) = Inl e \<longrightarrow> fst (extractColors env d s) = Inl e) \<and>
   (fst (evaluate env fonts_page d s) = Inl e \<longrightarrow> fst (extractFonts env d s) = Inl e) \<and>
   (fst (evaluate env intelligence_page d s) = Inl e \<longrightarrow>
      fst (extractWebsiteIntelligence env d s) = Inl e) \<and>
   ((\<exists>e. fst (extractWebsiteIntelligence env (site env (calls s + 2) url)
              (s\<lparr>uuids := Suc (uuids s), calls := calls s + 4\<rparr>)) = Inl e) \<or>
    (\<exists>e. fst (extractColors env (site env (calls s + 2) url)
              (s\<lparr>uuids := Suc (uuids s), calls := calls s + 5\<rparr>)) = Inl e) \<or>
    (\<exists>e. fst (extractFonts env (site env (calls s + 2) url)
              (s\<lparr>uuids := Suc (uuids s), calls := calls s + 6\<rparr>)) = Inl e) \<longrightarrow>
      (\<exists>e. fst (analyzeSingleWebsite env browser url s) = Inl e)) \<and>
   (isValidUrl env (get reqbody ''url'') \<and> \<not> rejects env (calls s) \<and>
    (\<exists>e. fst (analyzeSingleWebsite env (launched s) (get reqbody ''url'')
              (snd (launch env (ensureDir ''screenshots'' s)))) = Inl e) \<longrightarrow>
      fst (analyze env reqbody s) = message 500 ''Website analysis failed'') \<and>
   (isValidUrl env (Some u) \<and> (\<exists>e. fst (analyzeSingleWebsite env browser (Some u) s) = Inl e) \<longrightarrow>
      bulk_loop env browser (u # urls) results s =
      bulk_loop env browser urls
        (results @ [JObj [(''url'', u), (''success'', JBool False),
                          (''error'', JStr ''Analysis failed'')]])
        (snd (analyzeSingleWebsite env browser (Some u) s)))"
proof -
  have 1: "fst (extractCSSColors env d s) =
     Inr (case fst (evaluate env cssColors_page d s) of Inl e \<Rightarrow> [] | Inr v \<Rightarrow> v) \<and>
   fst (extractFonts_000 env d s) =
     Inr (case fst (evaluate env fonts_page_000 d s) of Inl e \<Rightarrow> [] | Inr v \<Rightarrow> v) \<and>
   fst (extractTags env d s) =
     Inr (case fst (evaluate env tags_page_000 d s) of Inl e \<Rightarrow> [] | Inr v \<Rightarrow> v) \<and>
   fst (extractCategory env d s) =
     Inr (case fst (evaluate env category_page_000 d s) of Inl e \<Rightarrow> ''Unknown'' | Inr v \<Rightarrow> v) \<and>
   (fst (evaluate env extractColors_page d s) = Inl e \<longrightarrow> fst (extractColors env d s) = Inl e) \<and>
   (fst (evaluate env fonts_page d s) = Inl e \<longrightarrow> fst (extractFonts env d s) = Inl e) \<and>
   (fst (evaluate env intelligence_page d s) = Inl e \<longrightarrow>
      fst (extractWebsiteIntelligence env d s) = Inl e)"
    by (simp add: extractCSSColors_def extractFonts_000_def extractTags_def extractCategory_def
      try_default_returns extractColors_def extractFonts_def extractWebsiteIntelligence_def)
  have 2: "(\<exists>e. fst (extractWebsiteIntelligence env (site env (calls s + 2) url)
              (s\<lparr>uuids := Suc (uuids s), calls := calls s + 4\<rparr>)) = Inl e) \<or>
    (\<exists>e. fst (extractColors env (site env (calls s + 2) url)
              (s\<lparr>uuids := Suc (uuids s), calls := calls s + 5\<rparr>)) = Inl e) \<or>
    (\<exists>e. fst (extractFonts env (site env (calls s + 2) url)
              (s\<lparr>uuids := Suc (uuids s), calls := calls s + 6\<rparr>)) = Inl e) \<longrightarrow>
      (\<exists>e. fst (analyzeSingleWebsite env browser url s) = Inl e)"
    by (rule impI) (rule extractor_failure_fails_analysis)
  have 3: "isValidUrl env (get reqbody ''url'') \<and> \<not> rejects env (calls s) \<and>
    (\<exists>e. fst (analyzeSingleWebsite env (launched s) (get reqbody ''url'')
              (snd (launch env (ensureDir ''screenshots'' s)))) = Inl e) \<longrightarrow>
      fst (analyze env reqbody s) = message 500 ''Website analysis failed''"
    using analyze_failure_500 by blast
  have 4: "isValidUrl env (Some u) \<and> (\<exists>e. fst (analyzeSingleWebsite env browser (Some u) s) = Inl e) \<longrightarrow>
      bulk_loop env browser (u # urls) results s =
      bulk_loop env browser urls
        (results @ [JObj [(''url'', u), (''success'', JBool False),
                          (''error'', JStr ''Analysis failed'')]])
        (snd (analyzeSingleWebsite env browser (Some u) s))"
    using bulk_loop_failure by blast
  from 1 2 3 4 show ?thesis by (intro conjI) blast+
qed

theorem extractors_part_000_catch_witness:
  "fst (evaluate sample_env category_page_000 (sample_dom\<lparr>body := None\<rparr>) start) = Inl TypeError \<and>
   fst (extractCategory sample_env (sample_dom\<lparr>body := None\<rparr>) start) = Inr ''Unknown'' \<and>
   fst (evaluate sample_env intelligence_page (sample_dom\<lparr>body := None\<rparr>) start) = Inl TypeError \<and>
   fst (extractWebsiteIntelligence sample_env (sample_dom\<lparr>body := None\<rparr>) start) = Inl TypeError \<and>
   isValidUrl nobody_env (get site_request ''url'') \<and>
   \<not> rejects nobody_env (calls start) \<and>
   (\<exists>e. fst (extractWebsiteIntelligence nobody_env
              (site nobody_env (calls (snd (launch nobody_env (ensureDir ''screenshots'' start))) + 2)
                 (get site_request ''url''))
              (snd (launch nobody_env (ensureDir ''screenshots'' start))
                 \<lparr>uuids := Suc (uuids (snd (launch nobody_env (ensureDir ''screenshots'' start)))),
                  calls := calls (snd (launch nobody_env (ensureDir ''screenshots'' start))) + 4\<rparr>)) =
         Inl e) \<and>
   (\<exists>e. fst (analyzeSingleWebsite nobody_env (launched start) (get site_request ''url'')
              (snd (launch nobody_env (ensureDir ''screenshots'' start)))) = Inl e) \<and>
   fst (analyze nobody_env site_request start) = message 500 ''Website analysis failed'' \<and>
   fst (bulk_loop nobody_env (launched start) [JStr ''https://example.com''] []
          (snd (launch nobody_env (ensureDir ''screenshots'' start)))) =
     [JObj [(''url'', JStr ''https://example.com''), (''success'', JBool False),
            (''error'', JStr ''Analysis failed'')]]"
proof -
  let ?d = "sample_dom\<lparr>body := None\<rparr>"
  let ?s2 = "snd (launch nobody_env (ensureDir ''screenshots'' start))"
  have h1: "fst (evaluate sample_env category_page_000 ?d start) = Inl TypeError"
    by (simp add: io_defs sample_env_def start_def sample_dom_def category_page_000_def
        page_text_def)
  have h2: "fst (evaluate sample_env intelligence_page ?d start) = Inl TypeError"
    by (simp add: io_defs sample_env_def start_def sample_dom_def intelligence_page_def
        page_text_def)
  note t = extractors_part_000_catch [where env = sample_env and d = ?d and s = start
      and e = TypeError]
  from t h1 have 1: "fst (extractCategory sample_env ?d start) = Inr ''Unknown''" by simp
  from t h2 have 2: "fst (extractWebsiteIntelligence sample_env ?d start) = Inl TypeError"
    by blast
  have u: "get site_request ''url'' = Some (JStr ''https://example.com'')"
    by (simp add: site_request_def get_def)
  have v: "isValidUrl nobody_env (get site_request ''url'')"
    by (simp add: u isValidUrl_def new_URL_def nobody_env_def sample_env_def startsWith_def)
  have l: "\<not> rejects nobody_env (calls start)"
    by (simp add: nobody_env_def sample_env_def)
  have x: "\<exists>e. fst (extractWebsiteIntelligence nobody_env
              (site nobody_env (calls ?s2 + 2) (get site_request ''url''))
              (?s2\<lparr>uuids := Suc (uuids ?s2), calls := calls ?s2 + 4\<rparr>)) = Inl e"
    by (simp add: extractWebsiteIntelligence_def io_defs nobody_env_def sample_env_def start_def
        sample_dom_def intelligence_page_def page_text_def)
  from extractors_part_000_catch [where env = nobody_env and s = ?s2
      and url = "get site_request ''url''" and browser = "launched start"] x
  have a: "\<exists>e. fst (analyzeSingleWebsite nobody_env (launched start) (get site_request ''url'')
      ?s2) = Inl e"
    by blast
  from extractors_part_000_catch [where env = nobody_env and s = start
      and reqbody = site_request] v l a
  have r: "fst (analyze nobody_env site_request start) = message 500 ''Website analysis failed''"
    by blast
  from extractors_part_000_catch [where env = nobody_env and s = ?s2
      and u = "JStr ''https://example.com''" and browser = "launched start" and urls = "[]"
      and results = "[]"] v a u
  have "bulk_loop nobody_env (launched start) [JStr ''https://example.com''] [] ?s2 =
      bulk_loop nobody_env (launched start) []
        ([] @ [JObj [(''url'', JStr ''https://example.com''), (''success'', JBool False),
                     (''error'', JStr ''Analysis failed'')]])
        (snd (analyzeSingleWebsite nobody_env (launched start)
                (Some (JStr ''https://example.com'')) ?s2))"
    by simp
  then have b: "fst (bulk_loop nobody_env (launched start) [JStr ''https://example.com''] [] ?s2) =
     [JObj [(''url'', JStr ''https://example.com''), (''success'', JBool False),
            (''error'', JStr ''Analysis failed'')]]"
    by simp
  from h1 h2 1 2 v l x a r b show ?thesis by blast
qed

end
